theory Spec2Isabelle
  imports Complex_Main "HOL-Library.Log_Nat"
begin

section \<open>Data model of the campus marketplace\<close>

text \<open>
  The entities of \<^verbatim>\<open>src/domain/entities\<close>, the in-memory repositories of
  \<^verbatim>\<open>src/infrastructure/persistence/in_memory_repositories.py\<close> and the order
  service of \<^verbatim>\<open>src/application/services/order_service.py\<close>.

  UUIDs are natural numbers. A \<^verbatim>\<open>datetime\<close> is an integer instant; every function
  that reads \<^verbatim>\<open>datetime.utcnow()\<close> takes the reading as its first argument
  \<open>now\<close>, one reading for all the reads of one call. Python floats (prices, amounts,
  ratings) are IEEE 754 double-precision values, modelled below with their rounding.
  A record holds the fields that the modelled methods read or write; purely
  descriptive fields (description, category, image URL, ...) are left out.

  Every \<^verbatim>\<open>raise ValueError(...)\<close> of the modelled code is one constructor of
  \<open>error\<close>, named after the failure it reports; \<open>ZeroDivisionError\<close> and
  \<open>OverflowError\<close> are Python's own.
  A method that mutates \<^verbatim>\<open>self\<close> returns the pair of the exception raised, if
  any, and the object as the call leaves it. A service method returns its result or
  error together with the repositories as the call leaves them.
\<close>

type_synonym uuid = nat
type_synonym datetime = int

datatype error =
    QuantityNotPositive
  | UnitPriceNotPositive
  | EmptyOrder
  | InvalidPickupTime
  | NonPositiveTotal
  | InvalidTransition
  | InsufficientStock
  | InvalidRating
  | ZeroDivisionError
  | OverflowError
  | UsageLimitExceeded
  | MerchantNotFound
  | MerchantNotAccepting
  | ProductNotFound uuid
  | ProductMerchantMismatch uuid
  | ProductUnavailable
  | OrderNotFound
  | Unauthorized
  | CannotCancel

subsection \<open>Python floats\<close>

text \<open>
  A Python \<^verbatim>\<open>float\<close> is an IEEE 754 binary64 value: a finite number, an infinity
  or NaN. A finite value is held as the real number it denotes; the two zeros
  \<^verbatim>\<open>0.0\<close> and \<^verbatim>\<open>-0.0\<close> are one value here (they compare equal, and since Python
  raises on division by zero no operation of the modelled code tells them apart).

  \<open>round_double\<close> is rounding to the nearest double, ties to the even mantissa:
  a result is a multiple of \<open>2 ^ q\<close>, where \<open>q\<close> is 52 below the binary exponent of
  the number and at least \<open>-1074\<close> (the subnormal range), and a result of magnitude
  \<open>2 ^ 1024\<close> or more is an infinity. Every arithmetic operation on finite values is
  the exact operation followed by \<open>round_double\<close>. The type \<open>pyfloat\<close> also holds
  reals that are no double; the theorems below hold of them as well.
\<close>

datatype pyfloat = Fin real | PInf | NInf | NaN

definition pow2 :: "int \<Rightarrow> real" where
  "pow2 k = (if 0 \<le> k then 2 ^ nat k else 1 / 2 ^ nat (- k))"

text \<open>The binary exponent of a positive number: the \<open>e\<close> with \<open>2 ^ e \<le> x < 2 ^ (e + 1)\<close>.\<close>

definition ilog2 :: "real \<Rightarrow> int" where
  "ilog2 x = (if 1 \<le> x then bitlen \<lfloor>x\<rfloor> - 1 else - bitlen (\<lceil>1 / x\<rceil> - 1))"

definition round_half_even :: "real \<Rightarrow> int" where
  "round_half_even x =
     (let f = \<lfloor>x\<rfloor>; d = x - of_int f
      in if d < 1 / 2 then f
         else if 1 / 2 < d then f + 1
         else if even f then f else f + 1)"

definition round_double :: "real \<Rightarrow> pyfloat" where
  "round_double x =
     (if x = 0 then Fin 0
      else
        let q = max (ilog2 \<bar>x\<bar> - 52) (- 1074);
            y = of_int (round_half_even (\<bar>x\<bar> / pow2 q)) * pow2 q
        in if 2 ^ 1024 \<le> y then (if x < 0 then NInf else PInf)
           else Fin (if x < 0 then - y else y))"

text \<open>
  The conversion of an \<^verbatim>\<open>int\<close> operand in mixed arithmetic
  (\<^verbatim>\<open>int * float\<close>, \<^verbatim>\<open>float / int\<close>): correctly rounded, and
  \<^verbatim>\<open>OverflowError: int too large to convert to float\<close> beyond the finite range.
\<close>

definition float_of_int :: "int \<Rightarrow> error + pyfloat" where
  "float_of_int n =
     (case round_double (of_int n) of
        Fin y \<Rightarrow> Inr (Fin y)
      | _ \<Rightarrow> Inl OverflowError)"

fun fneg :: "pyfloat \<Rightarrow> pyfloat" where
  "fneg (Fin x) = Fin (- x)"
| "fneg PInf = NInf"
| "fneg NInf = PInf"
| "fneg NaN = NaN"

fun fadd :: "pyfloat \<Rightarrow> pyfloat \<Rightarrow> pyfloat" where
  "fadd NaN _ = NaN"
| "fadd _ NaN = NaN"
| "fadd PInf NInf = NaN"
| "fadd NInf PInf = NaN"
| "fadd PInf _ = PInf"
| "fadd _ PInf = PInf"
| "fadd NInf _ = NInf"
| "fadd _ NInf = NInf"
| "fadd (Fin x) (Fin y) = round_double (x + y)"

fun fmul :: "pyfloat \<Rightarrow> pyfloat \<Rightarrow> pyfloat" where
  "fmul NaN _ = NaN"
| "fmul _ NaN = NaN"
| "fmul (Fin x) (Fin y) = round_double (x * y)"
| "fmul (Fin x) b = (if x = 0 then NaN else if 0 < x then b else fneg b)"
| "fmul a (Fin y) = (if y = 0 then NaN else if 0 < y then a else fneg a)"
| "fmul a b = (if a = b then PInf else NInf)"

text \<open>
  The quotient of two floats for a divisor that is not zero. Python's \<^verbatim>\<open>/\<close> is
  \<open>truediv\<close>: it raises ZeroDivisionError on a zero divisor before it divides, so
  the value \<open>float_quotient\<close> gives for a zero divisor is never used.
\<close>

fun float_quotient :: "pyfloat \<Rightarrow> pyfloat \<Rightarrow> pyfloat" where
  "float_quotient NaN _ = NaN"
| "float_quotient _ NaN = NaN"
| "float_quotient (Fin x) (Fin y) = (if y = 0 then NaN else round_double (x / y))"
| "float_quotient (Fin x) b = Fin 0"
| "float_quotient a (Fin y) = (if y = 0 then NaN else if 0 < y then a else fneg a)"
| "float_quotient a b = NaN"

definition truediv :: "pyfloat \<Rightarrow> pyfloat \<Rightarrow> error + pyfloat" where
  "truediv a b = (if b = Fin 0 then Inl ZeroDivisionError else Inr (float_quotient a b))"

text \<open>Comparisons: every comparison with NaN is false.\<close>

fun flt :: "pyfloat \<Rightarrow> pyfloat \<Rightarrow> bool" where
  "flt NaN _ = False"
| "flt _ NaN = False"
| "flt (Fin x) (Fin y) = (x < y)"
| "flt PInf _ = False"
| "flt _ PInf = True"
| "flt _ NInf = False"
| "flt NInf _ = True"

fun fle :: "pyfloat \<Rightarrow> pyfloat \<Rightarrow> bool" where
  "fle NaN _ = False"
| "fle _ NaN = False"
| "fle (Fin x) (Fin y) = (x \<le> y)"
| "fle _ PInf = True"
| "fle NInf _ = True"
| "fle PInf _ = False"
| "fle _ NInf = False"

text \<open>Python's \<^verbatim>\<open>min(a, b)\<close>: the first argument unless the second is less than it.\<close>

definition py_min :: "pyfloat \<Rightarrow> pyfloat \<Rightarrow> pyfloat" where
  "py_min a b = (if flt b a then b else a)"

subsection \<open>Product (product.py)\<close>

text \<open>
  \<^verbatim>\<open>price\<close> is annotated \<^verbatim>\<open>float\<close> and modelled as one; a whole number passed
  for it, as \<^verbatim>\<open>test_architecture.py\<close> does, is the same value up to \<open>2 ^ 53\<close>.
\<close>

record product =
  p_id :: uuid
  p_umkm_id :: uuid
  p_name :: string
  p_price :: pyfloat
  p_stock_quantity :: "int option"
  p_is_available :: bool
  p_updated_at :: datetime

definition can_be_ordered :: "product \<Rightarrow> int \<Rightarrow> bool" where
  "can_be_ordered p quantity =
     (if \<not> p_is_available p then False
      else case p_stock_quantity p of
             None \<Rightarrow> True
           | Some s \<Rightarrow> s \<ge> quantity)"

definition reduce_stock :: "datetime \<Rightarrow> product \<Rightarrow> int \<Rightarrow> error option \<times> product" where
  "reduce_stock now p quantity =
     (case p_stock_quantity p of
        None \<Rightarrow> (None, p)
      | Some s \<Rightarrow>
          if \<not> can_be_ordered p quantity then (Some InsufficientStock, p)
          else (None, p\<lparr>p_stock_quantity := Some (s - quantity), p_updated_at := now\<rparr>))"

definition increase_stock :: "datetime \<Rightarrow> product \<Rightarrow> int \<Rightarrow> error option \<times> product" where
  "increase_stock now p quantity =
     (if quantity \<le> 0 then (Some QuantityNotPositive, p)
      else case p_stock_quantity p of
             None \<Rightarrow> (None, p)
           | Some s \<Rightarrow> (None, p\<lparr>p_stock_quantity := Some (s + quantity), p_updated_at := now\<rparr>))"

subsection \<open>UMKM, the merchant (umkm.py)\<close>

datatype umkm_status = Pending | Active | Suspended | Closed

record umkm =
  u_id :: uuid
  u_owner_id :: uuid
  u_status :: umkm_status
  u_rating_average :: pyfloat
  u_rating_count :: int
  u_updated_at :: datetime

definition can_accept_orders :: "umkm \<Rightarrow> bool" where
  "can_accept_orders u = (u_status u = Active)"

text \<open>
  \<^verbatim>\<open>update_rating\<close>. The product \<^verbatim>\<open>rating_average * rating_count\<close> and the
  quotient by \<^verbatim>\<open>rating_count\<close> convert the integer count to a float. The count is
  incremented before the division, and the constructor does not validate it, so the
  division can meet zero (a count of \<open>-1\<close>): Python then raises ZeroDivisionError
  with the count already incremented.
\<close>

definition update_rating :: "datetime \<Rightarrow> umkm \<Rightarrow> pyfloat \<Rightarrow> error option \<times> umkm" where
  "update_rating now u new_rating =
     (if flt new_rating (Fin 1) \<or> flt (Fin 5) new_rating then (Some InvalidRating, u)
      else
        case float_of_int (u_rating_count u) of
          Inl e \<Rightarrow> (Some e, u)
        | Inr c \<Rightarrow>
            let total_rating = fmul (u_rating_average u) c;
                u1 = u\<lparr>u_rating_count := u_rating_count u + 1\<rparr>
            in case float_of_int (u_rating_count u1) of
                 Inl e \<Rightarrow> (Some e, u1)
               | Inr c1 \<Rightarrow>
                   (case truediv (fadd total_rating new_rating) c1 of
                      Inl e \<Rightarrow> (Some e, u1)
                    | Inr average \<Rightarrow>
                        (None, u1\<lparr>u_rating_average := average, u_updated_at := now\<rparr>)))"

subsection \<open>Order and OrderItem (order.py)\<close>

datatype order_status = Placed | Confirmed | Preparing | Ready | Completed | Cancelled

record order_item =
  oi_product_id :: uuid
  oi_product_name :: string
  oi_quantity :: int
  oi_unit_price :: pyfloat

definition OrderItem_init :: "uuid \<Rightarrow> string \<Rightarrow> int \<Rightarrow> pyfloat \<Rightarrow> error + order_item" where
  "OrderItem_init product_id product_name quantity unit_price =
     (if quantity \<le> 0 then Inl QuantityNotPositive
      else if fle unit_price (Fin 0) then Inl UnitPriceNotPositive
      else Inr \<lparr>oi_product_id = product_id, oi_product_name = product_name,
                oi_quantity = quantity, oi_unit_price = unit_price\<rparr>)"

text \<open>\<^verbatim>\<open>self.quantity * self.unit_price\<close>: the integer quantity is converted, then multiplied.\<close>

definition subtotal :: "order_item \<Rightarrow> error + pyfloat" where
  "subtotal item =
     (case float_of_int (oi_quantity item) of
        Inl e \<Rightarrow> Inl e
      | Inr quantity \<Rightarrow> Inr (fmul quantity (oi_unit_price item)))"

record order =
  o_id :: uuid
  o_buyer_id :: uuid
  o_umkm_id :: uuid
  o_items :: "order_item list"
  o_status :: order_status
  o_pickup_time :: "datetime option"
  o_notes :: "string option"
  o_total_amount :: pyfloat
  o_created_at :: datetime
  o_updated_at :: datetime
  o_cancelled_at :: "datetime option"
  o_cancellation_reason :: "string option"

text \<open>
  Python's \<^verbatim>\<open>sum\<close> over the generator of subtotals: from 0, each subtotal is
  computed and added in turn by float addition (the summation of CPython up to
  version 3.11; later versions carry a compensation term besides). The first
  subtotal that raises ends the sum.
\<close>

fun sum_subtotals :: "pyfloat \<Rightarrow> order_item list \<Rightarrow> error + pyfloat" where
  "sum_subtotals acc [] = Inr acc"
| "sum_subtotals acc (item # items) =
     (case subtotal item of
        Inl e \<Rightarrow> Inl e
      | Inr s \<Rightarrow> sum_subtotals (fadd acc s) items)"

definition calculate_total :: "order_item list \<Rightarrow> error + pyfloat" where
  "calculate_total items = sum_subtotals (Fin 0) items"

text \<open>
  \<^verbatim>\<open>Order.__init__\<close> followed by \<^verbatim>\<open>_validate\<close>; the total is computed before
  the validation runs. The fresh \<^verbatim>\<open>uuid4()\<close> is the
  argument \<open>new_id\<close>. The keyword arguments \<^verbatim>\<open>created_at\<close>, \<^verbatim>\<open>updated_at\<close>,
  \<^verbatim>\<open>cancelled_at\<close> and \<^verbatim>\<open>cancellation_reason\<close> stay at their defaults, as in the
  only constructor call of the repository.
\<close>

definition Order_init ::
  "datetime \<Rightarrow> uuid \<Rightarrow> uuid \<Rightarrow> uuid \<Rightarrow> order_item list \<Rightarrow> order_status \<Rightarrow>
   datetime option \<Rightarrow> string option \<Rightarrow> pyfloat option \<Rightarrow> error + order" where
  "Order_init now new_id buyer_id umkm_id items status pickup_time notes total_amount =
     (case (case total_amount of Some t \<Rightarrow> Inr t | None \<Rightarrow> calculate_total items) of
        Inl e \<Rightarrow> Inl e
      | Inr amount \<Rightarrow>
          if items = [] then Inl EmptyOrder
          else if (case pickup_time of None \<Rightarrow> False | Some t \<Rightarrow> t \<le> now) then Inl InvalidPickupTime
          else if fle amount (Fin 0) then Inl NonPositiveTotal
          else Inr \<lparr>o_id = new_id, o_buyer_id = buyer_id, o_umkm_id = umkm_id, o_items = items,
                    o_status = status, o_pickup_time = pickup_time, o_notes = notes,
                    o_total_amount = amount, o_created_at = now, o_updated_at = now,
                    o_cancelled_at = None, o_cancellation_reason = None\<rparr>)"

definition can_be_cancelled :: "order \<Rightarrow> bool" where
  "can_be_cancelled ord = (o_status ord \<notin> set [Completed, Cancelled])"

definition can_be_confirmed :: "order \<Rightarrow> bool" where
  "can_be_confirmed ord = (o_status ord = Placed)"

definition confirm :: "datetime \<Rightarrow> order \<Rightarrow> error option \<times> order" where
  "confirm now ord =
     (if \<not> can_be_confirmed ord then (Some InvalidTransition, ord)
      else (None, ord\<lparr>o_status := Confirmed, o_updated_at := now\<rparr>))"

definition mark_preparing :: "datetime \<Rightarrow> order \<Rightarrow> error option \<times> order" where
  "mark_preparing now ord =
     (if o_status ord \<noteq> Confirmed then (Some InvalidTransition, ord)
      else (None, ord\<lparr>o_status := Preparing, o_updated_at := now\<rparr>))"

definition mark_ready :: "datetime \<Rightarrow> order \<Rightarrow> error option \<times> order" where
  "mark_ready now ord =
     (if o_status ord \<noteq> Preparing then (Some InvalidTransition, ord)
      else (None, ord\<lparr>o_status := Ready, o_updated_at := now\<rparr>))"

definition complete :: "datetime \<Rightarrow> order \<Rightarrow> error option \<times> order" where
  "complete now ord =
     (if o_status ord \<noteq> Ready then (Some InvalidTransition, ord)
      else (None, ord\<lparr>o_status := Completed, o_updated_at := now\<rparr>))"

definition cancel :: "datetime \<Rightarrow> order \<Rightarrow> string option \<Rightarrow> error option \<times> order" where
  "cancel now ord reason =
     (if \<not> can_be_cancelled ord then (Some InvalidTransition, ord)
      else (None, ord\<lparr>o_status := Cancelled, o_cancelled_at := Some now,
                       o_cancellation_reason := reason, o_updated_at := now\<rparr>))"

text \<open>
  The five triggers of the state machine as one datatype, and the dispatch of a
  trigger to the method of \<^verbatim>\<open>Order\<close> that implements it.
\<close>

datatype trigger = TConfirm | TMarkPreparing | TMarkReady | TComplete | TCancel "string option"

fun fire :: "datetime \<Rightarrow> trigger \<Rightarrow> order \<Rightarrow> error option \<times> order" where
  "fire now TConfirm ord = confirm now ord"
| "fire now TMarkPreparing ord = mark_preparing now ord"
| "fire now TMarkReady ord = mark_ready now ord"
| "fire now TComplete ord = complete now ord"
| "fire now (TCancel reason) ord = cancel now ord reason"

text \<open>
  The transition table of section 4.3 of the specification, written from the table
  and not from the code: the next status when the trigger is allowed.
\<close>

fun spec_table :: "order_status \<Rightarrow> trigger \<Rightarrow> order_status option" where
  "spec_table Placed TConfirm = Some Confirmed"
| "spec_table Confirmed TMarkPreparing = Some Preparing"
| "spec_table Preparing TMarkReady = Some Ready"
| "spec_table Ready TComplete = Some Completed"
| "spec_table Placed (TCancel r) = Some Cancelled"
| "spec_table Confirmed (TCancel r) = Some Cancelled"
| "spec_table Preparing (TCancel r) = Some Cancelled"
| "spec_table Ready (TCancel r) = Some Cancelled"
| "spec_table _ _ = None"

subsection \<open>Promo (promo.py)\<close>

datatype promo_type = Percentage | FixedAmount | BuyOneGetOne

record promo =
  pr_promo_type :: promo_type
  pr_discount_value :: pyfloat
  pr_valid_from :: datetime
  pr_valid_until :: datetime
  pr_min_purchase :: "pyfloat option"
  pr_max_discount :: "pyfloat option"
  pr_usage_limit :: "int option"
  pr_usage_count :: int
  pr_is_active :: bool
  pr_updated_at :: datetime

text \<open>
  \<^verbatim>\<open>is_valid(current_time=None)\<close>: the instant checked is the argument when one is
  given and the clock reading \<open>clock\<close> otherwise.
\<close>

definition is_valid :: "datetime \<Rightarrow> promo \<Rightarrow> datetime option \<Rightarrow> bool" where
  "is_valid clock p current_time =
     (let now = (case current_time of Some t \<Rightarrow> t | None \<Rightarrow> clock)
      in if \<not> pr_is_active p then False
         else if now < pr_valid_from p \<or> now > pr_valid_until p then False
         else if (case pr_usage_limit p of None \<Rightarrow> False | Some l \<Rightarrow> pr_usage_count p \<ge> l) then False
         else True)"

definition can_apply_to_order :: "datetime \<Rightarrow> promo \<Rightarrow> pyfloat \<Rightarrow> bool" where
  "can_apply_to_order clock p order_amount =
     (if \<not> is_valid clock p None then False
      else if (case pr_min_purchase p of None \<Rightarrow> False | Some m \<Rightarrow> flt order_amount m) then False
      else True)"

text \<open>
  In \<^verbatim>\<open>order_amount * (self.discount_value / 100)\<close> the divisor is the literal 100,
  so the division cannot raise.
\<close>

definition calculate_discount :: "datetime \<Rightarrow> promo \<Rightarrow> pyfloat \<Rightarrow> pyfloat" where
  "calculate_discount clock p order_amount =
     (if \<not> can_apply_to_order clock p order_amount then Fin 0
      else if pr_promo_type p = Percentage then
        (let discount = fmul order_amount (float_quotient (pr_discount_value p) (Fin 100))
         in case pr_max_discount p of
              None \<Rightarrow> discount
            | Some m \<Rightarrow> py_min discount m)
      else if pr_promo_type p = FixedAmount then py_min (pr_discount_value p) order_amount
      else Fin 0)"

definition increment_usage :: "datetime \<Rightarrow> promo \<Rightarrow> error option \<times> promo" where
  "increment_usage now p =
     (if (case pr_usage_limit p of None \<Rightarrow> False | Some l \<Rightarrow> pr_usage_count p \<ge> l)
      then (Some UsageLimitExceeded, p)
      else (None, p\<lparr>pr_usage_count := pr_usage_count p + 1, pr_updated_at := now\<rparr>))"

subsection \<open>Repositories (in_memory_repositories.py)\<close>

text \<open>
  Each repository is a dictionary from the entity's id to a deep copy of the entity:
  \<^verbatim>\<open>find_by_id\<close> is the lookup and \<^verbatim>\<open>save\<close> stores the entity under its own
  \<^verbatim>\<open>id\<close>. The three repositories the order service holds form the record \<open>repos\<close>.
\<close>

record repos =
  umkms :: "uuid \<rightharpoonup> umkm"
  products :: "uuid \<rightharpoonup> product"
  orders :: "uuid \<rightharpoonup> order"

definition save_product :: "(uuid \<rightharpoonup> product) \<Rightarrow> product \<Rightarrow> (uuid \<rightharpoonup> product)" where
  "save_product ps p = ps(p_id p \<mapsto> p)"

definition save_order :: "(uuid \<rightharpoonup> order) \<Rightarrow> order \<Rightarrow> (uuid \<rightharpoonup> order)" where
  "save_order os ord = os(o_id ord \<mapsto> ord)"

text \<open>
  Every write goes through \<^verbatim>\<open>save\<close>, so a product is always found under its own id.
\<close>

definition products_keyed_by_id :: "(uuid \<rightharpoonup> product) \<Rightarrow> bool" where
  "products_keyed_by_id ps = (\<forall>k p. ps k = Some p \<longrightarrow> p_id p = k)"

subsection \<open>OrderService (order_service.py)\<close>

text \<open>
  The per-line loop of \<^verbatim>\<open>create_order\<close>. A requested line is the pair of
  \<^verbatim>\<open>item_data["product_id"]\<close> and \<^verbatim>\<open>item_data["quantity"]\<close>; \<open>order_items\<close> is the
  list built so far. Each line that passes is saved at once, so the product store
  returned with an error holds the reservations made before the failing line.
\<close>

fun create_order_lines ::
  "datetime \<Rightarrow> uuid \<Rightarrow> (uuid \<times> int) list \<Rightarrow> order_item list \<Rightarrow> (uuid \<rightharpoonup> product) \<Rightarrow>
   (error + order_item list) \<times> (uuid \<rightharpoonup> product)" where
  "create_order_lines now umkm_id [] order_items ps = (Inr order_items, ps)"
| "create_order_lines now umkm_id ((product_id, quantity) # rest) order_items ps =
     (case ps product_id of
        None \<Rightarrow> (Inl (ProductNotFound product_id), ps)
      | Some product \<Rightarrow>
          if p_umkm_id product \<noteq> umkm_id then (Inl (ProductMerchantMismatch product_id), ps)
          else if \<not> can_be_ordered product quantity then (Inl ProductUnavailable, ps)
          else
            (case OrderItem_init (p_id product) (p_name product) quantity (p_price product) of
               Inl e \<Rightarrow> (Inl e, ps)
             | Inr order_item \<Rightarrow>
                 (case reduce_stock now product quantity of
                    (Some e, _) \<Rightarrow> (Inl e, ps)
                  | (None, product') \<Rightarrow>
                      create_order_lines now umkm_id rest (order_items @ [order_item])
                        (save_product ps product'))))"

definition create_order ::
  "datetime \<Rightarrow> uuid \<Rightarrow> repos \<Rightarrow> uuid \<Rightarrow> uuid \<Rightarrow> (uuid \<times> int) list \<Rightarrow>
   datetime option \<Rightarrow> string option \<Rightarrow> (error + order) \<times> repos" where
  "create_order now new_id r buyer_id umkm_id items pickup_time notes =
     (case umkms r umkm_id of
        None \<Rightarrow> (Inl MerchantNotFound, r)
      | Some umkm \<Rightarrow>
          if \<not> can_accept_orders umkm then (Inl MerchantNotAccepting, r)
          else
            (case create_order_lines now umkm_id items [] (products r) of
               (Inl e, ps) \<Rightarrow> (Inl e, r\<lparr>products := ps\<rparr>)
             | (Inr order_items, ps) \<Rightarrow>
                 (case Order_init now new_id buyer_id umkm_id order_items Placed pickup_time notes None of
                    Inl e \<Rightarrow> (Inl e, r\<lparr>products := ps\<rparr>)
                  | Inr ord \<Rightarrow> (Inr ord, r\<lparr>products := ps, orders := save_order (orders r) ord\<rparr>))))"

text \<open>The restoration loop of \<^verbatim>\<open>cancel_order\<close>: a line whose product is not found is passed over.\<close>

fun cancel_order_lines ::
  "datetime \<Rightarrow> order_item list \<Rightarrow> (uuid \<rightharpoonup> product) \<Rightarrow> error option \<times> (uuid \<rightharpoonup> product)" where
  "cancel_order_lines now [] ps = (None, ps)"
| "cancel_order_lines now (item # rest) ps =
     (case ps (oi_product_id item) of
        None \<Rightarrow> cancel_order_lines now rest ps
      | Some product \<Rightarrow>
          (case increase_stock now product (oi_quantity item) of
             (Some e, _) \<Rightarrow> (Some e, ps)
           | (None, product') \<Rightarrow> cancel_order_lines now rest (save_product ps product')))"

definition cancel_order ::
  "datetime \<Rightarrow> repos \<Rightarrow> uuid \<Rightarrow> uuid \<Rightarrow> string option \<Rightarrow> (error + order) \<times> repos" where
  "cancel_order now r order_id user_id reason =
     (case orders r order_id of
        None \<Rightarrow> (Inl OrderNotFound, r)
      | Some ord \<Rightarrow>
          let is_buyer = (o_buyer_id ord = user_id);
              is_seller = (case umkms r (o_umkm_id ord) of
                             None \<Rightarrow> False
                           | Some umkm \<Rightarrow> u_owner_id umkm = user_id)
          in if \<not> (is_buyer \<or> is_seller) then (Inl Unauthorized, r)
             else if \<not> can_be_cancelled ord then (Inl CannotCancel, r)
             else
               (case cancel_order_lines now (o_items ord) (products r) of
                  (Some e, ps) \<Rightarrow> (Inl e, r\<lparr>products := ps\<rparr>)
                | (None, ps) \<Rightarrow>
                    (case cancel now ord reason of
                       (Some e, _) \<Rightarrow> (Inl e, r\<lparr>products := ps\<rparr>)
                     | (None, ord') \<Rightarrow>
                         (Inr ord', r\<lparr>products := ps, orders := save_order (orders r) ord'\<rparr>))))"

subsection \<open>Quantities used to state the properties\<close>

text \<open>
  The stock figure the store holds for a product id (\<open>None\<close>: no such product;
  \<open>Some None\<close>: unlimited stock), the total quantity a request asks of one product,
  and the same total over the lines of an order.
\<close>

definition stock_of :: "(uuid \<rightharpoonup> product) \<Rightarrow> uuid \<Rightarrow> int option option" where
  "stock_of ps k = map_option p_stock_quantity (ps k)"

definition requested :: "(uuid \<times> int) list \<Rightarrow> uuid \<Rightarrow> int" where
  "requested lines k = sum_list (map snd (filter (\<lambda>l. fst l = k) lines))"

definition line_of :: "order_item \<Rightarrow> uuid \<times> int" where
  "line_of item = (oi_product_id item, oi_quantity item)"

text \<open>
  A float that is a whole positive number, the real number a finite float denotes,
  and the exact (unrounded) product of quantity and unit price of a line.
\<close>

definition whole_positive :: "pyfloat \<Rightarrow> bool" where
  "whole_positive a = (case a of Fin x \<Rightarrow> 0 < x \<and> of_int \<lfloor>x\<rfloor> = x | _ \<Rightarrow> False)"

definition float_value :: "pyfloat \<Rightarrow> real" where
  "float_value a = (case a of Fin x \<Rightarrow> x | _ \<Rightarrow> 0)"

definition exact_subtotal :: "order_item \<Rightarrow> real" where
  "exact_subtotal item = of_int (oi_quantity item) * float_value (oi_unit_price item)"


subsection \<open>A concrete marketplace\<close>

text \<open>
  The scenario of \<^verbatim>\<open>test_architecture.py\<close>: one active merchant owned by user 10
  with two stocked products, and a buyer 20.
\<close>

definition ex_umkm :: umkm where
  "ex_umkm = \<lparr>u_id = 1, u_owner_id = 10, u_status = Active, u_rating_average = Fin 0,
              u_rating_count = 0, u_updated_at = 0\<rparr>"

definition ex_nasi :: product where
  "ex_nasi = \<lparr>p_id = 100, p_umkm_id = 1, p_name = ''Nasi Goreng Special'', p_price = Fin 15000,
              p_stock_quantity = Some 50, p_is_available = True, p_updated_at = 0\<rparr>"

definition ex_teh :: product where
  "ex_teh = \<lparr>p_id = 101, p_umkm_id = 1, p_name = ''Es Teh Manis'', p_price = Fin 5000,
             p_stock_quantity = Some 100, p_is_available = True, p_updated_at = 0\<rparr>"

definition ex_item :: order_item where
  "ex_item = \<lparr>oi_product_id = 100, oi_product_name = ''Nasi Goreng Special'',
              oi_quantity = 2, oi_unit_price = Fin 15000\<rparr>"

definition ex_item_teh :: order_item where
  "ex_item_teh = \<lparr>oi_product_id = 101, oi_product_name = ''Es Teh Manis'',
                  oi_quantity = 3, oi_unit_price = Fin 5000\<rparr>"

definition ex_order :: "order_status \<Rightarrow> order" where
  "ex_order st = \<lparr>o_id = 500, o_buyer_id = 20, o_umkm_id = 1, o_items = [ex_item],
                  o_status = st, o_pickup_time = None, o_notes = None, o_total_amount = Fin 30000,
                  o_created_at = 0, o_updated_at = 0, o_cancelled_at = None,
                  o_cancellation_reason = None\<rparr>"

definition ex_repos :: repos where
  "ex_repos = \<lparr>umkms = [1 \<mapsto> ex_umkm], products = [100 \<mapsto> ex_nasi, 101 \<mapsto> ex_teh],
               orders = Map.empty\<rparr>"


definition ex_promo :: "promo_type \<Rightarrow> pyfloat \<Rightarrow> pyfloat option \<Rightarrow> promo" where
  "ex_promo ty v cap = \<lparr>pr_promo_type = ty, pr_discount_value = v, pr_valid_from = 0,
                        pr_valid_until = 100, pr_min_purchase = None, pr_max_discount = cap,
                        pr_usage_limit = Some 1, pr_usage_count = 0, pr_is_active = True,
                        pr_updated_at = 0\<rparr>"

section \<open>Facts about the float model\<close>

lemmas float_eval =
  round_double_def ilog2_def compute_bitlen round_half_even_def pow2_def float_of_int_def
  truediv_def py_min_def Let_def

lemma round_half_even_of_int: "round_half_even (of_int k) = k"
  by (simp add: round_half_even_def)

lemma round_half_even_ge_floor: "\<lfloor>x\<rfloor> \<le> round_half_even x"
  by (simp add: round_half_even_def Let_def)

lemma pow2_pos: "0 < pow2 k"
  by (simp add: pow2_def)

lemma ilog2_of_int:
  assumes "0 < a"
  shows "ilog2 (real_of_int a) = bitlen a - 1" and "0 \<le> bitlen a - 1"
    and "2 ^ nat (bitlen a - 1) \<le> a"
proof -
  have "1 \<le> real_of_int a" using assms by simp
  then show "ilog2 (real_of_int a) = bitlen a - 1"
    by (simp add: ilog2_def)
  show "0 \<le> bitlen a - 1"
    using assms bitlen_eq_zero_iff [of a] bitlen_nonneg [of a] by simp
  show "2 ^ nat (bitlen a - 1) \<le> a"
    using bitlen_bounds [OF assms] by simp
qed

text \<open>A whole number of magnitude at most \<open>2 ^ 53\<close> is a double: rounding leaves it as it is.\<close>

lemma round_double_whole:
  assumes "\<bar>n\<bar> \<le> 2 ^ 53"
  shows "round_double (of_int n) = Fin (of_int n)"
proof (cases "n = 0")
  case True
  then show ?thesis by (simp add: round_double_def)
next
  case False
  define a where "a = \<bar>n\<bar>"
  have a: "0 < a" "a \<le> 2 ^ 53" using False assms by (simp_all add: a_def)
  define e where "e = bitlen a - 1"
  have abs: "\<bar>real_of_int n\<bar> = real_of_int a" by (simp add: a_def)
  have il: "ilog2 (real_of_int a) = e" and e0: "0 \<le> e" and lo: "2 ^ nat e \<le> a"
    using ilog2_of_int [OF a(1)] by (simp_all add: e_def)
  have "(2::int) ^ nat e \<le> 2 ^ 53" using lo a(2) by linarith
  moreover have "(1::int) < 2" by simp
  ultimately have "nat e \<le> 53"
    by (simp only: power_increasing_iff)
  then have e53: "e \<le> 53"
    by simp
  define q where "q = max (e - 52) (- 1074)"
  have q: "q = e - 52" using e0 by (simp add: q_def)
  have scaled: "\<exists>k. real_of_int a / pow2 q = of_int k"
  proof (cases "e \<le> 52")
    case True
    then have "real_of_int a / pow2 q = of_int (a * 2 ^ nat (- q))"
      by (simp add: q pow2_def)
    then show ?thesis by blast
  next
    case False
    with e53 have e: "e = 53" by simp
    with lo a(2) have "a = 2 ^ 53" by simp
    then have "real_of_int a / pow2 q = of_int (2 ^ 52)"
      by (simp add: q e pow2_def)
    then show ?thesis by blast
  qed
  then obtain k where k: "real_of_int a / pow2 q = of_int k" by blast
  have "of_int (round_half_even (real_of_int a / pow2 q)) * pow2 q = of_int k * pow2 q"
    by (simp only: k round_half_even_of_int)
  also have "\<dots> = real_of_int a / pow2 q * pow2 q"
    by (simp only: k)
  also have "\<dots> = real_of_int a"
    using pow2_pos [of q] by simp
  finally have y: "of_int (round_half_even (real_of_int a / pow2 q)) * pow2 q = real_of_int a" .
  have small: "\<not> (2::real) ^ 1024 \<le> real_of_int a"
  proof -
    have "real_of_int a \<le> 2 ^ 53" using a(2) by (metis of_int_le_iff of_int_numeral of_int_power)
    also have "\<dots> < (2::real) ^ 1024" by simp
    finally show ?thesis by simp
  qed
  have qf: "max (e - 52) (- 1074) = q" by (simp only: q_def)
  have nz: "(real_of_int n = 0) = False" using False by simp
  have "round_double (of_int n) = Fin (if real_of_int n < 0 then - real_of_int a else real_of_int a)"
    using small by (simp only: round_double_def Let_def abs il qf y nz if_False)
  also have "(if real_of_int n < 0 then - real_of_int a else real_of_int a) = real_of_int n"
    by (simp add: a_def)
  finally show ?thesis .
qed

lemma float_of_int_whole:
  "\<bar>n\<bar> \<le> 2 ^ 53 \<Longrightarrow> float_of_int n = Inr (Fin (of_int n))"
  by (simp add: float_of_int_def round_double_whole)

lemma float_of_int_value:
  "float_of_int n = Inr c \<Longrightarrow> c = round_double (of_int n)"
  by (auto simp: float_of_int_def split: pyfloat.splits)

text \<open>The float of an integer other than zero is not zero.\<close>

lemma round_double_of_int_nonzero:
  assumes "n \<noteq> 0"
  shows "round_double (of_int n) \<noteq> Fin 0"
proof -
  define a where "a = \<bar>n\<bar>"
  have a: "0 < a" using assms by (simp add: a_def)
  define e where "e = bitlen a - 1"
  have abs: "\<bar>real_of_int n\<bar> = real_of_int a" by (simp add: a_def)
  have il: "ilog2 (real_of_int a) = e" and e0: "0 \<le> e" and lo: "2 ^ nat e \<le> a"
    using ilog2_of_int [OF a] by (simp_all add: e_def)
  define q where "q = max (e - 52) (- 1074)"
  have q: "q = e - 52" using e0 by (simp add: q_def)
  have one: "1 \<le> real_of_int a / pow2 q"
  proof (cases "q \<le> 0")
    case True
    then have p1: "pow2 q \<le> 1" by (simp add: pow2_def divide_le_eq_1)
    have a1: "1 \<le> real_of_int a" using a by simp
    have "real_of_int a * pow2 q \<le> real_of_int a * 1"
      using p1 a1 by (intro mult_left_mono) simp_all
    then have "real_of_int a \<le> real_of_int a / pow2 q"
      using pow2_pos [of q] by (simp add: pos_le_divide_eq)
    with a1 show ?thesis by linarith
  next
    case False
    then have p: "pow2 q = 2 ^ nat q" by (simp add: pow2_def)
    have "nat q \<le> nat e" using q by simp
    then have "(2::real) ^ nat q \<le> 2 ^ nat e"
      by (intro power_increasing) simp_all
    also have "\<dots> \<le> real_of_int a"
      using lo by (metis of_int_le_iff of_int_numeral of_int_power)
    finally show ?thesis by (simp add: p)
  qed
  then have "1 \<le> \<lfloor>real_of_int a / pow2 q\<rfloor>" by simp
  with round_half_even_ge_floor [of "real_of_int a / pow2 q"]
  have "1 \<le> round_half_even (real_of_int a / pow2 q)" by linarith
  then have pos: "0 < real_of_int (round_half_even (real_of_int a / pow2 q))" by simp
  define y where "y = real_of_int (round_half_even (real_of_int a / pow2 q)) * pow2 q"
  have y: "0 < y"
    unfolding y_def using pos pow2_pos [of q] by simp
  have qf: "max (e - 52) (- 1074) = q" by (simp only: q_def)
  have yf: "real_of_int (round_half_even (real_of_int a / pow2 q)) * pow2 q = y"
    by (simp only: y_def)
  have nz: "(real_of_int n = 0) = False" using assms by simp
  have "round_double (of_int n) =
          (if 2 ^ 1024 \<le> y then (if real_of_int n < 0 then NInf else PInf)
           else Fin (if real_of_int n < 0 then - y else y))"
    by (simp only: round_double_def Let_def abs il qf yf nz if_False)
  then show ?thesis
    using y by auto
qed

lemma float_of_int_nonzero:
  "n \<noteq> 0 \<Longrightarrow> float_of_int n = Inr c \<Longrightarrow> c \<noteq> Fin 0"
  using float_of_int_value [of n c] round_double_of_int_nonzero [of n] by auto

lemma flt_irrefl: "\<not> flt a a"
  by (cases a) simp_all

lemma py_min_not_above: "\<not> flt b (py_min a b)"
  by (simp add: py_min_def flt_irrefl)

section \<open>The order state machine\<close>

text \<open>
  Claim C2. For every order and every trigger, the trigger succeeds exactly when the
  table of section 4.3 allows it for the current status, and then the status becomes
  the one the table names; every other combination, also from the terminal states
  Completed and Cancelled, raises InvalidTransition and leaves the whole order as it was.
\<close>

theorem fire_follows_table:
  "(fst (fire now t ord) = None) = (spec_table (o_status ord) t \<noteq> None) \<and>
   (\<forall>s'. spec_table (o_status ord) t = Some s' \<longrightarrow> o_status (snd (fire now t ord)) = s') \<and>
   (spec_table (o_status ord) t = None \<longrightarrow> fire now t ord = (Some InvalidTransition, ord))"
  by (cases t; cases "o_status ord")
     (simp_all add: confirm_def mark_preparing_def mark_ready_def complete_def cancel_def
        can_be_confirmed_def can_be_cancelled_def)

theorem fire_follows_table_witness:
  "spec_table (o_status (ex_order Placed)) TConfirm = Some Confirmed \<and>
   fst (fire 7 TConfirm (ex_order Placed)) = None \<and>
   o_status (snd (fire 7 TConfirm (ex_order Placed))) = Confirmed \<and>
   spec_table (o_status (ex_order Completed)) (TCancel None) = None \<and>
   fire 7 (TCancel None) (ex_order Completed) = (Some InvalidTransition, ex_order Completed)"
  using fire_follows_table [of 7 TConfirm "ex_order Placed"]
        fire_follows_table [of 7 "TCancel None" "ex_order Completed"]
  by (simp add: ex_order_def)

section \<open>The product inventory ledger\<close>

text \<open>
  Claim C3, as stated, fails: \<^verbatim>\<open>reduce_stock\<close> returns at once on unlimited stock,
  before it looks at \<^verbatim>\<open>can_be_ordered\<close>. A product that is unavailable and has
  unlimited stock cannot be reserved (\<^verbatim>\<open>can_be_ordered\<close> is false), yet
  \<^verbatim>\<open>reduce_stock\<close> of a positive quantity raises nothing.
\<close>

theorem reduce_stock_unavailable_unlimited_counterexample:
  "(0::int) < 1 \<and>
   \<not> can_be_ordered \<lparr>p_id = 100, p_umkm_id = 1, p_name = ''Nasi Goreng Special'',
        p_price = Fin 15000, p_stock_quantity = None, p_is_available = False, p_updated_at = 0\<rparr> 1 \<and>
   fst (reduce_stock 7 \<lparr>p_id = 100, p_umkm_id = 1, p_name = ''Nasi Goreng Special'',
        p_price = Fin 15000, p_stock_quantity = None, p_is_available = False, p_updated_at = 0\<rparr> 1)
     \<noteq> Some InsufficientStock"
  by (simp add: can_be_ordered_def reduce_stock_def)

text \<open>
  Claim C3, amended. For every product and every quantity, \<^verbatim>\<open>reduce_stock\<close> raises
  InsufficientStock exactly when the stock is finite and \<^verbatim>\<open>can_be_ordered\<close> is false
  at the call (the product is unavailable, or its stock is below the quantity), and
  then leaves the product as it was; it raises nothing else. On finite stock that can
  be ordered it subtracts the quantity; on unlimited stock it always succeeds and
  changes nothing, whether the product is available or not.
\<close>

theorem reduce_stock_fails_iff_finite_not_orderable:
  "(fst (reduce_stock now p q) = Some InsufficientStock) =
     (p_stock_quantity p \<noteq> None \<and> \<not> can_be_ordered p q) \<and>
   (fst (reduce_stock now p q) \<noteq> Some InsufficientStock \<longrightarrow> fst (reduce_stock now p q) = None) \<and>
   (fst (reduce_stock now p q) = Some InsufficientStock \<longrightarrow> snd (reduce_stock now p q) = p) \<and>
   (\<forall>s. p_stock_quantity p = Some s \<longrightarrow> can_be_ordered p q \<longrightarrow>
        reduce_stock now p q = (None, p\<lparr>p_stock_quantity := Some (s - q), p_updated_at := now\<rparr>)) \<and>
   (p_stock_quantity p = None \<longrightarrow> reduce_stock now p q = (None, p))"
  by (cases "p_stock_quantity p") (simp_all add: reduce_stock_def)

theorem reduce_stock_fails_iff_finite_not_orderable_witness:
  "can_be_ordered ex_nasi 2 \<and>
   reduce_stock 7 ex_nasi 2 = (None, ex_nasi\<lparr>p_stock_quantity := Some 48, p_updated_at := 7\<rparr>) \<and>
   \<not> can_be_ordered ex_nasi 51 \<and>
   reduce_stock 7 ex_nasi 51 = (Some InsufficientStock, ex_nasi) \<and>
   reduce_stock 7 (ex_nasi\<lparr>p_stock_quantity := None, p_is_available := False\<rparr>) 2
     = (None, ex_nasi\<lparr>p_stock_quantity := None, p_is_available := False\<rparr>)"
  using reduce_stock_fails_iff_finite_not_orderable [of 7 ex_nasi 2]
        reduce_stock_fails_iff_finite_not_orderable [of 7 ex_nasi 51]
        reduce_stock_fails_iff_finite_not_orderable
          [of 7 "ex_nasi\<lparr>p_stock_quantity := None, p_is_available := False\<rparr>" 2]
  by (simp add: ex_nasi_def can_be_ordered_def prod_eq_iff)

section \<open>The order total\<close>



lemma exact_subtotal_whole:
  assumes "0 < oi_quantity item" and "whole_positive (oi_unit_price item)"
  obtains c where "0 < c" "oi_unit_price item = Fin (of_int c)"
    "exact_subtotal item = of_int (oi_quantity item * c)"
proof -
  from assms(2) obtain x where x: "oi_unit_price item = Fin x" "0 < x" "of_int \<lfloor>x\<rfloor> = x"
    by (auto simp: whole_positive_def split: pyfloat.splits)
  from x(2,3) have "0 < \<lfloor>x\<rfloor>" by (metis of_int_0_less_iff)
  moreover have "oi_unit_price item = Fin (of_int \<lfloor>x\<rfloor>)" by (simp only: x(1,3))
  moreover have "exact_subtotal item = of_int (oi_quantity item) * of_int \<lfloor>x\<rfloor>"
    by (simp only: exact_subtotal_def float_value_def x(1,3) pyfloat.case)
  then have "exact_subtotal item = of_int (oi_quantity item * \<lfloor>x\<rfloor>)"
    by (simp only: of_int_mult)
  ultimately show thesis by (rule that)
qed

lemma exact_subtotals_nonneg:
  assumes "\<forall>i \<in> set items. 0 < oi_quantity i \<and> whole_positive (oi_unit_price i)"
  shows "0 \<le> (\<Sum>i\<leftarrow>items. exact_subtotal i)"
proof (rule sum_list_nonneg)
  fix x assume "x \<in> set (map exact_subtotal items)"
  then obtain i where i: "i \<in> set items" "x = exact_subtotal i" by auto
  with assms have "0 < oi_quantity i" "whole_positive (oi_unit_price i)" by auto
  then obtain c where "0 < c" "exact_subtotal i = of_int (oi_quantity i * c)"
    by (rule exact_subtotal_whole)
  with \<open>0 < oi_quantity i\<close> i(2) show "0 \<le> x" by simp
qed

lemma sum_subtotals_exact:
  assumes "\<forall>i \<in> set items. 0 < oi_quantity i \<and> whole_positive (oi_unit_price i)"
      and "0 \<le> a"
      and "of_int a + (\<Sum>i\<leftarrow>items. exact_subtotal i) \<le> 2 ^ 53"
  shows "sum_subtotals (Fin (of_int a)) items = Inr (Fin (of_int a + (\<Sum>i\<leftarrow>items. exact_subtotal i)))"
  using assms
proof (induction items arbitrary: a)
  case Nil
  then show ?case by simp
next
  case (Cons item items)
  from Cons.prems(1) have q: "0 < oi_quantity item" and w: "whole_positive (oi_unit_price item)"
    and rest: "\<forall>i \<in> set items. 0 < oi_quantity i \<and> whole_positive (oi_unit_price i)"
    by simp_all
  from q w obtain c where c: "0 < c" "oi_unit_price item = Fin (of_int c)"
    "exact_subtotal item = of_int (oi_quantity item * c)"
    by (rule exact_subtotal_whole)
  define s where "s = oi_quantity item * c"
  have spos: "0 < s" using q c(1) by (simp add: s_def)
  have qs: "oi_quantity item \<le> s"
    using q c(1) by (simp add: s_def)
  have "real_of_int (a + s) \<le> 2 ^ 53"
    using Cons.prems(3) exact_subtotals_nonneg [OF rest] by (simp add: c(3) s_def)
  then have bound: "a + s \<le> 2 ^ 53"
    by (metis of_int_le_iff of_int_numeral of_int_power)
  have conv: "float_of_int (oi_quantity item) = Inr (Fin (of_int (oi_quantity item)))"
    using q qs bound Cons.prems(2) by (intro float_of_int_whole) simp
  have "fmul (Fin (of_int (oi_quantity item))) (oi_unit_price item) = round_double (of_int s)"
    by (simp add: c(2) s_def)
  also have "\<dots> = Fin (of_int s)"
    using spos bound Cons.prems(2) by (intro round_double_whole) simp
  finally have sub: "subtotal item = Inr (Fin (of_int s))"
    by (simp add: subtotal_def conv)
  have "fadd (Fin (of_int a)) (Fin (of_int s)) = round_double (of_int (a + s))"
    by simp
  also have "\<dots> = Fin (of_int (a + s))"
    using spos bound Cons.prems(2) by (intro round_double_whole) simp
  finally have add: "fadd (Fin (of_int a)) (Fin (of_int s)) = Fin (of_int (a + s))" .
  have step: "sum_subtotals (Fin (of_int a)) (item # items) = sum_subtotals (Fin (of_int (a + s))) items"
    by (simp only: sum_subtotals.simps sub add sum.case)
  have "sum_subtotals (Fin (of_int (a + s))) items =
          Inr (Fin (of_int (a + s) + (\<Sum>i\<leftarrow>items. exact_subtotal i)))"
    using rest Cons.prems(2,3) spos by (intro Cons.IH) (simp_all add: c(3) s_def)
  also have "of_int (a + s) + (\<Sum>i\<leftarrow>items. exact_subtotal i) =
             of_int a + (\<Sum>i\<leftarrow>item # items. exact_subtotal i)"
    by (simp add: c(3) s_def)
  finally show ?case
    by (simp only: step)
qed

lemma Order_init_fields:
  assumes "Order_init now new_id buyer_id umkm_id items status pickup_time notes total_amount = Inr ord"
  shows "o_id ord = new_id \<and> o_buyer_id ord = buyer_id \<and> o_umkm_id ord = umkm_id \<and>
         o_items ord = items \<and> o_status ord = status \<and> items \<noteq> [] \<and>
         (total_amount = None \<longrightarrow> calculate_total items = Inr (o_total_amount ord))"
  using assms
  by (cases total_amount; cases "calculate_total items")
     (auto simp: Order_init_def split: if_splits)



text \<open>
  A quantity too large for a float makes the constructor raise Python's OverflowError
  from the subtotal, before any validation.
\<close>

lemma order_quantity_overflow:
  "Order_init 7 500 20 1 [ex_item\<lparr>oi_quantity := 2 ^ 1024\<rparr>] Placed None None None
     = Inl OverflowError"
  by (simp add: Order_init_def calculate_total_def subtotal_def ex_item_def float_eval)




section \<open>The promo evaluator\<close>

text \<open>
  Claim C5, as stated, fails: the percentage discount is computed in doubles. For a
  Percentage promo of 7 on an order amount of 100, \<^verbatim>\<open>calculate_discount\<close> returns
  7.000000000000001 (the amount times the double nearest to 0.07, rounded), not
  100 * 7 / 100 = 7.
\<close>

theorem calculate_discount_percentage_counterexample:
  "can_apply_to_order 50 (ex_promo Percentage (Fin 7) None) (Fin 100) \<and>
   calculate_discount 50 (ex_promo Percentage (Fin 7) None) (Fin 100)
     = Fin (7881299347898369 / 1125899906842624) \<and>
   Fin (7881299347898369 / 1125899906842624) \<noteq> Fin (100 * 7 / 100)"
  by (simp add: calculate_discount_def can_apply_to_order_def is_valid_def ex_promo_def float_eval)

text \<open>
  Claim C5, amended. For every promo and order amount, \<^verbatim>\<open>calculate_discount\<close> is 0
  when \<^verbatim>\<open>can_apply_to_order\<close> is false. When it is true: a Percentage promo gives
  the float product of the amount and the float quotient of the discount value by
  100 (each rounded to the nearest double, so 10 percent of 50000 is 5000 but 7
  percent of 100 is 7.000000000000001), capped by \<^verbatim>\<open>min\<close> at the maximum discount
  when one is set; a FixedAmount promo gives \<^verbatim>\<open>min\<close> of the discount value and the
  amount, and the amount is never less than that. A buy-one-get-one promo gives 0.
\<close>

theorem calculate_discount_float_cases:
  "(\<not> can_apply_to_order clock p a \<longrightarrow> calculate_discount clock p a = Fin 0) \<and>
   (can_apply_to_order clock p a \<longrightarrow> pr_promo_type p = Percentage \<longrightarrow> pr_max_discount p = None \<longrightarrow>
      calculate_discount clock p a = fmul a (float_quotient (pr_discount_value p) (Fin 100))) \<and>
   (\<forall>m. can_apply_to_order clock p a \<longrightarrow> pr_promo_type p = Percentage \<longrightarrow> pr_max_discount p = Some m \<longrightarrow>
      calculate_discount clock p a =
        py_min (fmul a (float_quotient (pr_discount_value p) (Fin 100))) m) \<and>
   (can_apply_to_order clock p a \<longrightarrow> pr_promo_type p = FixedAmount \<longrightarrow>
      calculate_discount clock p a = py_min (pr_discount_value p) a \<and>
      \<not> flt a (calculate_discount clock p a)) \<and>
   (pr_promo_type p = BuyOneGetOne \<longrightarrow> calculate_discount clock p a = Fin 0)"
  by (simp add: calculate_discount_def py_min_not_above)

theorem calculate_discount_float_cases_witness:
  "can_apply_to_order 50 (ex_promo Percentage (Fin 10) (Some (Fin 2000))) (Fin 50000) \<and>
   fmul (Fin 50000) (float_quotient (Fin 10) (Fin 100)) = Fin 5000 \<and>
   calculate_discount 50 (ex_promo Percentage (Fin 10) (Some (Fin 2000))) (Fin 50000) = Fin 2000 \<and>
   calculate_discount 50 (ex_promo Percentage (Fin 10) None) (Fin 50000) = Fin 5000 \<and>
   can_apply_to_order 50 (ex_promo FixedAmount (Fin 10000) None) (Fin 8000) \<and>
   calculate_discount 50 (ex_promo FixedAmount (Fin 10000) None) (Fin 8000) = Fin 8000 \<and>
   \<not> can_apply_to_order 101 (ex_promo FixedAmount (Fin 10000) None) (Fin 8000) \<and>
   calculate_discount 101 (ex_promo FixedAmount (Fin 10000) None) (Fin 8000) = Fin 0 \<and>
   calculate_discount 50 (ex_promo BuyOneGetOne (Fin 1) None) (Fin 8000) = Fin 0"
proof -
  have ok: "can_apply_to_order 50 (ex_promo ty v cap) a" for ty v cap a
    by (simp add: can_apply_to_order_def is_valid_def ex_promo_def)
  have late: "\<not> can_apply_to_order 101 (ex_promo ty v cap) a" for ty v cap a
    by (simp add: can_apply_to_order_def is_valid_def ex_promo_def)
  have pct: "fmul (Fin 50000) (float_quotient (Fin 10) (Fin 100)) = Fin 5000"
    by (simp add: float_eval)
  have cap: "py_min (Fin 5000) (Fin 2000) = Fin 2000" "py_min (Fin 10000) (Fin 8000) = Fin 8000"
    by (simp_all add: py_min_def)
  show ?thesis
    using ok late pct cap
      calculate_discount_float_cases [of 50 "ex_promo Percentage (Fin 10) (Some (Fin 2000))" "Fin 50000"]
      calculate_discount_float_cases [of 50 "ex_promo Percentage (Fin 10) None" "Fin 50000"]
      calculate_discount_float_cases [of 50 "ex_promo FixedAmount (Fin 10000) None" "Fin 8000"]
      calculate_discount_float_cases [of 101 "ex_promo FixedAmount (Fin 10000) None" "Fin 8000"]
      calculate_discount_float_cases [of 50 "ex_promo BuyOneGetOne (Fin 1) None" "Fin 8000"]
    by (simp add: ex_promo_def)
qed

text \<open>
  Claim C6. For a promo with a usage limit: \<^verbatim>\<open>increment_usage\<close> adds one to the
  usage count while the count is below the limit, and raises UsageLimitExceeded,
  leaving the promo as it was, once the count has reached the limit; so a count that
  does not exceed the limit never comes to exceed it. A promo whose count has reached
  its limit is not valid at any instant and gives a discount of 0 on every amount.
\<close>

theorem usage_count_bounded_by_limit:
  assumes "pr_usage_limit p = Some l"
  shows "(pr_usage_count p < l \<longrightarrow>
            increment_usage now p = (None, p\<lparr>pr_usage_count := pr_usage_count p + 1, pr_updated_at := now\<rparr>)) \<and>
         (pr_usage_count p \<ge> l \<longrightarrow>
            increment_usage now p = (Some UsageLimitExceeded, p) \<and>
            (\<forall>clock t. \<not> is_valid clock p t) \<and>
            (\<forall>clock a. calculate_discount clock p a = Fin 0)) \<and>
         (pr_usage_count p \<le> l \<longrightarrow> pr_usage_count (snd (increment_usage now p)) \<le> l)"
  using assms
  by (simp add: increment_usage_def is_valid_def can_apply_to_order_def calculate_discount_def)

theorem usage_count_bounded_by_limit_witness:
  "pr_usage_limit (ex_promo Percentage (Fin 10) None) = Some 1 \<and>
   increment_usage 7 (ex_promo Percentage (Fin 10) None)
     = (None, (ex_promo Percentage (Fin 10) None)\<lparr>pr_usage_count := 1, pr_updated_at := 7\<rparr>) \<and>
   increment_usage 8 ((ex_promo Percentage (Fin 10) None)\<lparr>pr_usage_count := 1, pr_updated_at := 7\<rparr>)
     = (Some UsageLimitExceeded, (ex_promo Percentage (Fin 10) None)\<lparr>pr_usage_count := 1, pr_updated_at := 7\<rparr>) \<and>
   \<not> is_valid 50 ((ex_promo Percentage (Fin 10) None)\<lparr>pr_usage_count := 1, pr_updated_at := 7\<rparr>) None \<and>
   calculate_discount 50 ((ex_promo Percentage (Fin 10) None)\<lparr>pr_usage_count := 1, pr_updated_at := 7\<rparr>) (Fin 50000) = Fin 0"
proof -
  have l0: "pr_usage_limit (ex_promo Percentage (Fin 10) None) = Some 1"
    by (simp add: ex_promo_def)
  have l1: "pr_usage_limit ((ex_promo Percentage (Fin 10) None)\<lparr>pr_usage_count := 1, pr_updated_at := 7\<rparr>) = Some 1"
    by (simp add: ex_promo_def)
  have c0: "pr_usage_count (ex_promo Percentage (Fin 10) None) = 0"
    by (simp add: ex_promo_def)
  show ?thesis
    using l0 c0 usage_count_bounded_by_limit [OF l0, of 7] usage_count_bounded_by_limit [OF l1, of 8]
    by simp
qed

section \<open>The rating aggregator\<close>

lemma update_rating_count_minus_one:
  assumes "u_rating_count u = - 1" and "fle (Fin 1) s" and "fle s (Fin 5)"
  shows "update_rating now u s = (Some ZeroDivisionError, u\<lparr>u_rating_count := 0\<rparr>)"
proof -
  have g: "\<not> (flt s (Fin 1) \<or> flt (Fin 5) s)"
    using assms(2,3) by (cases s) auto
  have c: "float_of_int (- 1) = Inr (Fin (- 1))" "float_of_int 0 = Inr (Fin 0)"
    using float_of_int_whole [of "- 1"] float_of_int_whole [of 0] by simp_all
  show ?thesis
    using g by (simp add: update_rating_def assms(1) c truediv_def)
qed

text \<open>A NaN score passes the guard, both comparisons being false, and the average becomes NaN.\<close>

lemma update_rating_nan:
  "update_rating 7 ex_umkm NaN
     = (None, ex_umkm\<lparr>u_rating_average := NaN, u_rating_count := 1, u_updated_at := 7\<rparr>)"
  by (simp add: update_rating_def ex_umkm_def float_eval)

text \<open>
  Claim C7, as stated, fails. The average is computed in doubles: from average 4.5
  over 2 ratings, the score 4 stores 4.333333333333333, the double nearest to the
  quotient, not (4.5 * 2 + 4) / 3. And the claim does not hold of every merchant: the
  rating count is an unvalidated integer, and at a count of \<open>-1\<close> a score of 3 raises
  ZeroDivisionError, the average not set and the count already incremented.
\<close>

theorem update_rating_not_exact_counterexample:
  "update_rating 7 (ex_umkm\<lparr>u_rating_average := Fin (9 / 2), u_rating_count := 2\<rparr>) (Fin 4)
     = (None, ex_umkm\<lparr>u_rating_average := Fin (4878899596318037 / 1125899906842624),
                      u_rating_count := 3, u_updated_at := 7\<rparr>) \<and>
   Fin (4878899596318037 / 1125899906842624) \<noteq> Fin ((9 / 2 * 2 + 4) / 3) \<and>
   update_rating 7 (ex_umkm\<lparr>u_rating_count := - 1\<rparr>) (Fin 3)
     = (Some ZeroDivisionError, ex_umkm\<lparr>u_rating_count := 0\<rparr>)"
  by (simp add: update_rating_def ex_umkm_def float_eval)

text \<open>
  Claim C7, amended. For every merchant whose rating count is not \<open>-1\<close> and is, like
  its successor, within the range of a float, and for every score from 1 to 5,
  \<^verbatim>\<open>update_rating\<close> sets the average to the float value of (old average times old
  count plus score) over (old count plus one), each operation rounded to the nearest
  double, and adds one to the count. For every merchant and a score below 1 or above
  5 it raises InvalidRating and leaves the merchant as it was. From average 0 and
  count 0, the scores 5 then 3 give exactly average 5 and then average 4.
\<close>

theorem update_rating_float_mean:
  "(u_rating_count u \<noteq> - 1 \<and>
    float_of_int (u_rating_count u) \<noteq> Inl OverflowError \<and>
    float_of_int (u_rating_count u + 1) \<noteq> Inl OverflowError \<and>
    fle (Fin 1) s \<and> fle s (Fin 5) \<longrightarrow>
      update_rating now u s =
        (None, u\<lparr>u_rating_average :=
                    float_quotient
                      (fadd (fmul (u_rating_average u) (round_double (of_int (u_rating_count u)))) s)
                      (round_double (of_int (u_rating_count u + 1))),
                  u_rating_count := u_rating_count u + 1,
                  u_updated_at := now\<rparr>)) \<and>
   (flt s (Fin 1) \<or> flt (Fin 5) s \<longrightarrow> update_rating now u s = (Some InvalidRating, u)) \<and>
   (u_rating_average u = Fin 0 \<and> u_rating_count u = 0 \<longrightarrow>
      fst (update_rating now u (Fin 5)) = None \<and>
      u_rating_average (snd (update_rating now u (Fin 5))) = Fin 5 \<and>
      fst (update_rating now' (snd (update_rating now u (Fin 5))) (Fin 3)) = None \<and>
      u_rating_average (snd (update_rating now' (snd (update_rating now u (Fin 5))) (Fin 3))) = Fin 4 \<and>
      u_rating_count (snd (update_rating now' (snd (update_rating now u (Fin 5))) (Fin 3))) = 2)"
proof -
  have a: "update_rating now u s =
        (None, u\<lparr>u_rating_average :=
                    float_quotient
                      (fadd (fmul (u_rating_average u) (round_double (of_int (u_rating_count u)))) s)
                      (round_double (of_int (u_rating_count u + 1))),
                  u_rating_count := u_rating_count u + 1,
                  u_updated_at := now\<rparr>)"
    if h: "u_rating_count u \<noteq> - 1" "float_of_int (u_rating_count u) \<noteq> Inl OverflowError"
      "float_of_int (u_rating_count u + 1) \<noteq> Inl OverflowError" "fle (Fin 1) s" "fle s (Fin 5)"
  proof -
    have g: "\<not> (flt s (Fin 1) \<or> flt (Fin 5) s)"
      using h(4,5) by (cases s) auto
    from h(2) obtain c where c: "float_of_int (u_rating_count u) = Inr c"
      by (cases "float_of_int (u_rating_count u)") (auto simp: float_of_int_def split: pyfloat.splits)
    from h(3) obtain c1 where c1: "float_of_int (u_rating_count u + 1) = Inr c1"
      by (cases "float_of_int (u_rating_count u + 1)") (auto simp: float_of_int_def split: pyfloat.splits)
    have nz: "c1 \<noteq> Fin 0"
      using h(1) c1 by (intro float_of_int_nonzero [of "u_rating_count u + 1"]) simp_all
    show ?thesis
      using g nz float_of_int_value [OF c] float_of_int_value [OF c1]
      by (simp add: update_rating_def c c1 truediv_def)
  qed
  have b: "flt s (Fin 1) \<or> flt (Fin 5) s \<longrightarrow> update_rating now u s = (Some InvalidRating, u)"
    by (simp add: update_rating_def)
  have c: "u_rating_average u = Fin 0 \<and> u_rating_count u = 0 \<longrightarrow>
      fst (update_rating now u (Fin 5)) = None \<and>
      u_rating_average (snd (update_rating now u (Fin 5))) = Fin 5 \<and>
      fst (update_rating now' (snd (update_rating now u (Fin 5))) (Fin 3)) = None \<and>
      u_rating_average (snd (update_rating now' (snd (update_rating now u (Fin 5))) (Fin 3))) = Fin 4 \<and>
      u_rating_count (snd (update_rating now' (snd (update_rating now u (Fin 5))) (Fin 3))) = 2"
    by (simp add: update_rating_def float_eval)
  from a b c show ?thesis by blast
qed

theorem update_rating_float_mean_witness:
  "u_rating_count ex_umkm \<noteq> - 1 \<and>
   float_of_int (u_rating_count ex_umkm) \<noteq> Inl OverflowError \<and>
   float_of_int (u_rating_count ex_umkm + 1) \<noteq> Inl OverflowError \<and>
   update_rating 7 ex_umkm (Fin 5)
     = (None, ex_umkm\<lparr>u_rating_average := Fin 5, u_rating_count := 1, u_updated_at := 7\<rparr>) \<and>
   update_rating 8 (ex_umkm\<lparr>u_rating_average := Fin 5, u_rating_count := 1, u_updated_at := 7\<rparr>) (Fin 3)
     = (None, ex_umkm\<lparr>u_rating_average := Fin 4, u_rating_count := 2, u_updated_at := 8\<rparr>) \<and>
   update_rating 9 ex_umkm (Fin 6) = (Some InvalidRating, ex_umkm) \<and>
   update_rating 9 ex_umkm (Fin (1 / 2)) = (Some InvalidRating, ex_umkm)"
proof -
  let ?u1 = "ex_umkm\<lparr>u_rating_average := Fin 5, u_rating_count := 1, u_updated_at := 7\<rparr>"
  have h0: "u_rating_count ex_umkm \<noteq> - 1" "float_of_int (u_rating_count ex_umkm) \<noteq> Inl OverflowError"
    "float_of_int (u_rating_count ex_umkm + 1) \<noteq> Inl OverflowError"
    by (simp_all add: ex_umkm_def float_eval)
  have h1: "u_rating_count ?u1 \<noteq> - 1" "float_of_int (u_rating_count ?u1) \<noteq> Inl OverflowError"
    "float_of_int (u_rating_count ?u1 + 1) \<noteq> Inl OverflowError"
    by (simp_all add: float_eval)
  have v0: "float_quotient (fadd (fmul (Fin 0) (round_double 0)) (Fin 5)) (round_double 1) = Fin 5"
    by (simp add: float_eval)
  have v1: "float_quotient (fadd (fmul (Fin 5) (round_double 1)) (Fin 3)) (round_double 2) = Fin 4"
    by (simp add: float_eval)
  show ?thesis
    using h0 h1 v0 v1
      update_rating_float_mean [of ex_umkm "Fin 5" 7]
      update_rating_float_mean [of ?u1 "Fin 3" 8]
      update_rating_float_mean [of ex_umkm "Fin 6" 9]
      update_rating_float_mean [of ex_umkm "Fin (1 / 2)" 9]
    by (simp add: ex_umkm_def)
qed

section \<open>Cancellation of a finished order\<close>

text \<open>
  Claim C8. For every stored order in the Completed or Cancelled state,
  \<^verbatim>\<open>cancel_order\<close> by an authorized caller (the buyer, or the owner of the order's
  merchant) raises the service's cannot-cancel error before the restoration loop
  runs: the product store, the order store and the merchant store are all as they were.
\<close>

theorem cancel_order_finished_no_effect:
  assumes "orders r order_id = Some ord"
      and "o_status ord = Completed \<or> o_status ord = Cancelled"
      and "user_id = o_buyer_id ord \<or>
           (\<exists>m. umkms r (o_umkm_id ord) = Some m \<and> u_owner_id m = user_id)"
  shows "cancel_order now r order_id user_id reason = (Inl CannotCancel, r)"
  using assms
  by (auto simp: cancel_order_def can_be_cancelled_def Let_def split: option.splits)

theorem cancel_order_finished_no_effect_witness:
  "cancel_order 9 (ex_repos\<lparr>orders := [500 \<mapsto> ex_order Completed]\<rparr>) 500 20 None
     = (Inl CannotCancel, ex_repos\<lparr>orders := [500 \<mapsto> ex_order Completed]\<rparr>) \<and>
   cancel_order 9 (ex_repos\<lparr>orders := [500 \<mapsto> ex_order Cancelled]\<rparr>) 500 10 None
     = (Inl CannotCancel, ex_repos\<lparr>orders := [500 \<mapsto> ex_order Cancelled]\<rparr>)"
proof -
  have a: "cancel_order 9 (ex_repos\<lparr>orders := [500 \<mapsto> ex_order Completed]\<rparr>) 500 20 None
     = (Inl CannotCancel, ex_repos\<lparr>orders := [500 \<mapsto> ex_order Completed]\<rparr>)"
    by (rule cancel_order_finished_no_effect [where ord = "ex_order Completed"])
       (simp_all add: ex_order_def)
  have b: "cancel_order 9 (ex_repos\<lparr>orders := [500 \<mapsto> ex_order Cancelled]\<rparr>) 500 10 None
     = (Inl CannotCancel, ex_repos\<lparr>orders := [500 \<mapsto> ex_order Cancelled]\<rparr>)"
    by (rule cancel_order_finished_no_effect [where ord = "ex_order Cancelled"])
       (simp_all add: ex_order_def ex_repos_def ex_umkm_def)
  from a b show ?thesis by blast
qed

section \<open>Order creation and cancellation against the inventory\<close>

subsection \<open>The repository invariant\<close>

lemma keyed_empty: "products_keyed_by_id Map.empty"
  by (simp add: products_keyed_by_id_def)

lemma keyed_save_product:
  "products_keyed_by_id ps \<Longrightarrow> products_keyed_by_id (save_product ps p)"
  by (simp add: products_keyed_by_id_def save_product_def)

subsection \<open>The reservation loop and the restoration loop\<close>

lemma stock_of_upd:
  "stock_of (ps(k \<mapsto> p)) k' = (if k' = k then Some (p_stock_quantity p) else stock_of ps k')"
  by (simp add: stock_of_def)

lemma requested_Nil: "requested [] k = 0"
  by (simp add: requested_def)

lemma requested_Cons:
  "requested ((pid, q) # rest) k = (if pid = k then q else 0) + requested rest k"
  by (simp add: requested_def)

lemma keyed_upd:
  "products_keyed_by_id ps \<Longrightarrow> p_id p = k \<Longrightarrow> products_keyed_by_id (ps(k \<mapsto> p))"
  by (simp add: products_keyed_by_id_def)

lemma reduce_stock_ok:
  assumes "reduce_stock now p q = (None, p')"
  shows "p_id p' = p_id p \<and> p_stock_quantity p' = map_option (\<lambda>s. s - q) (p_stock_quantity p)"
  using assms by (auto simp: reduce_stock_def split: option.splits if_splits)

lemma increase_stock_ok:
  assumes "0 < q"
  shows "\<exists>p'. increase_stock now p q = (None, p') \<and> p_id p' = p_id p \<and>
              p_stock_quantity p' = map_option (\<lambda>s. s + q) (p_stock_quantity p)"
  using assms by (cases "p_stock_quantity p") (simp_all add: increase_stock_def)

lemma create_order_lines_step:
  assumes keyed: "products_keyed_by_id ps"
      and run: "create_order_lines now umkm_id ((pid, q) # rest) acc ps = (Inr items, ps')"
  obtains p p' item where
    "ps pid = Some p" "0 < q" "line_of item = (pid, q)" "p_id p' = pid"
    "p_stock_quantity p' = map_option (\<lambda>s. s - q) (p_stock_quantity p)"
    "create_order_lines now umkm_id rest (acc @ [item]) (ps(pid \<mapsto> p')) = (Inr items, ps')"
proof -
  from run obtain p where p: "ps pid = Some p"
    by (cases "ps pid") auto
  with keyed have pid: "p_id p = pid"
    by (simp add: products_keyed_by_id_def)
  from run p obtain item where
    item: "OrderItem_init (p_id p) (p_name p) q (p_price p) = Inr item"
    by (cases "OrderItem_init (p_id p) (p_name p) q (p_price p)") (auto split: if_splits)
  then have q: "0 < q" and lo: "line_of item = (pid, q)"
    using pid by (auto simp: OrderItem_init_def line_of_def split: if_splits)
  from run p item obtain p' where
    red: "reduce_stock now p q = (None, p')"
    by (cases "reduce_stock now p q"; cases "fst (reduce_stock now p q)") (auto split: if_splits)
  from run p item red have
    rest: "create_order_lines now umkm_id rest (acc @ [item]) (save_product ps p') = (Inr items, ps')"
    by (auto split: if_splits)
  from reduce_stock_ok [OF red] pid have
    p'id: "p_id p' = pid" and st: "p_stock_quantity p' = map_option (\<lambda>s. s - q) (p_stock_quantity p)"
    by simp_all
  from rest p'id have
    "create_order_lines now umkm_id rest (acc @ [item]) (ps(pid \<mapsto> p')) = (Inr items, ps')"
    by (simp add: save_product_def)
  with p q lo p'id st show thesis by (rule that)
qed

lemma create_order_lines_ok:
  assumes "products_keyed_by_id ps"
      and "create_order_lines now umkm_id lines acc ps = (Inr items, ps')"
  shows "products_keyed_by_id ps' \<and>
         (\<exists>new. items = acc @ new \<and> map line_of new = lines) \<and>
         (\<forall>l \<in> set lines. 0 < snd l) \<and>
         (\<forall>k. stock_of ps' k = map_option (map_option (\<lambda>s. s - requested lines k)) (stock_of ps k))"
  using assms
proof (induction lines arbitrary: acc ps)
  case Nil
  then show ?case
    by (simp add: requested_Nil option.map_ident)
next
  case (Cons l lines)
  obtain pid q where l: "l = (pid, q)" by (cases l)
  from Cons.prems(2) have run: "create_order_lines now umkm_id ((pid, q) # lines) acc ps = (Inr items, ps')"
    by (simp add: l)
  from Cons.prems(1) run obtain p p' item where
    p: "ps pid = Some p" and q: "0 < q" and lo: "line_of item = (pid, q)" and p'id: "p_id p' = pid"
    and st: "p_stock_quantity p' = map_option (\<lambda>s. s - q) (p_stock_quantity p)"
    and rest: "create_order_lines now umkm_id lines (acc @ [item]) (ps(pid \<mapsto> p')) = (Inr items, ps')"
    by (rule create_order_lines_step)
  have keyed1: "products_keyed_by_id (ps(pid \<mapsto> p'))"
    using Cons.prems(1) p'id by (rule keyed_upd)
  note ih = Cons.IH [OF keyed1 rest]
  from ih obtain new where new: "items = (acc @ [item]) @ new" "map line_of new = lines"
    by blast
  have a: "\<exists>new. items = acc @ new \<and> map line_of new = l # lines"
    using new lo l by (intro exI [of _ "item # new"]) simp
  have b: "\<forall>l' \<in> set (l # lines). 0 < snd l'"
    using ih q l by simp
  have c: "stock_of ps' k = map_option (map_option (\<lambda>s. s - requested (l # lines) k)) (stock_of ps k)" for k
  proof (cases "k = pid")
    case True
    from ih have "stock_of ps' k = map_option (map_option (\<lambda>s. s - requested lines k)) (stock_of (ps(pid \<mapsto> p')) k)"
      by blast
    then show ?thesis
      using True p st
      by (cases "p_stock_quantity p") (simp_all add: stock_of_def l requested_Cons diff_diff_eq)
  next
    case False
    from ih have "stock_of ps' k = map_option (map_option (\<lambda>s. s - requested lines k)) (stock_of (ps(pid \<mapsto> p')) k)"
      by blast
    then show ?thesis
      using False by (simp add: stock_of_def l requested_Cons)
  qed
  from ih a b c show ?case by blast
qed

lemma cancel_order_lines_ok:
  assumes "products_keyed_by_id ps"
      and "\<forall>i \<in> set items. 0 < oi_quantity i"
  shows "\<exists>ps'. cancel_order_lines now items ps = (None, ps') \<and> products_keyed_by_id ps' \<and>
           (\<forall>k. stock_of ps' k =
                map_option (map_option (\<lambda>s. s + requested (map line_of items) k)) (stock_of ps k))"
  using assms
proof (induction items arbitrary: ps)
  case Nil
  then show ?case
    by (simp add: requested_Nil option.map_ident)
next
  case (Cons item items)
  from Cons.prems(2) have q: "0 < oi_quantity item" and qs: "\<forall>i \<in> set items. 0 < oi_quantity i"
    by simp_all
  show ?case
  proof (cases "ps (oi_product_id item)")
    case None
    from Cons.IH [OF Cons.prems(1) qs] obtain ps' where
      ps': "cancel_order_lines now items ps = (None, ps')" "products_keyed_by_id ps'"
        "\<forall>k. stock_of ps' k = map_option (map_option (\<lambda>s. s + requested (map line_of items) k)) (stock_of ps k)"
      by blast
    have "stock_of ps' k =
            map_option (map_option (\<lambda>s. s + requested (map line_of (item # items)) k)) (stock_of ps k)" for k
      using ps'(3) None by (cases "k = oi_product_id item") (simp_all add: stock_of_def line_of_def requested_Cons)
    with ps'(1,2) None show ?thesis by simp
  next
    case (Some p)
    with Cons.prems(1) have pid: "p_id p = oi_product_id item"
      by (simp add: products_keyed_by_id_def)
    from increase_stock_ok [OF q, of now p] obtain p' where
      inc: "increase_stock now p (oi_quantity item) = (None, p')" and p'id: "p_id p' = p_id p"
      and st: "p_stock_quantity p' = map_option (\<lambda>s. s + oi_quantity item) (p_stock_quantity p)"
      by blast
    have keyed1: "products_keyed_by_id (ps(oi_product_id item \<mapsto> p'))"
      using Cons.prems(1) p'id pid by (simp add: keyed_upd)
    from Cons.IH [OF keyed1 qs] obtain ps' where
      ps': "cancel_order_lines now items (ps(oi_product_id item \<mapsto> p')) = (None, ps')"
        "products_keyed_by_id ps'"
        "\<forall>k. stock_of ps' k = map_option (map_option (\<lambda>s. s + requested (map line_of items) k))
                 (stock_of (ps(oi_product_id item \<mapsto> p')) k)"
      by blast
    have run: "cancel_order_lines now (item # items) ps = (None, ps')"
      using Some inc ps'(1) p'id pid by (simp add: save_product_def)
    have "stock_of ps' k =
            map_option (map_option (\<lambda>s. s + requested (map line_of (item # items)) k)) (stock_of ps k)" for k
      using ps'(3) Some st
      by (cases "k = oi_product_id item"; cases "p_stock_quantity p")
         (simp_all add: stock_of_def line_of_def requested_Cons add.assoc)
    with run ps'(2) show ?thesis by simp
  qed
qed

lemma create_order_unfold:
  assumes "create_order now new_id r buyer_id umkm_id lines pickup_time notes = (Inr ord, r')"
  obtains m items ps where
    "umkms r umkm_id = Some m" "can_accept_orders m"
    "create_order_lines now umkm_id lines [] (products r) = (Inr items, ps)"
    "Order_init now new_id buyer_id umkm_id items Placed pickup_time notes None = Inr ord"
    "r' = r\<lparr>products := ps, orders := save_order (orders r) ord\<rparr>"
proof -
  from assms obtain m where m: "umkms r umkm_id = Some m"
    by (cases "umkms r umkm_id") (auto simp: create_order_def)
  from assms m have acc: "can_accept_orders m"
    by (auto simp: create_order_def split: if_splits)
  obtain res ps where run: "create_order_lines now umkm_id lines [] (products r) = (res, ps)"
    by (cases "create_order_lines now umkm_id lines [] (products r)")
  from assms m acc run obtain items where items: "res = Inr items"
    by (cases res) (auto simp: create_order_def)
  from assms m acc run items have
    "Order_init now new_id buyer_id umkm_id items Placed pickup_time notes None = Inr ord \<and>
     r' = r\<lparr>products := ps, orders := save_order (orders r) ord\<rparr>"
    by (cases "Order_init now new_id buyer_id umkm_id items Placed pickup_time notes None")
       (auto simp: create_order_def)
  then have oi: "Order_init now new_id buyer_id umkm_id items Placed pickup_time notes None = Inr ord"
    and r': "r' = r\<lparr>products := ps, orders := save_order (orders r) ord\<rparr>"
    by blast+
  from run items have "create_order_lines now umkm_id lines [] (products r) = (Inr items, ps)"
    by simp
  with m acc show thesis using oi r' by (rule that)
qed

lemma cancel_order_runs:
  assumes ord: "orders r order_id = Some ord"
      and can: "can_be_cancelled ord"
      and auth: "user_id = o_buyer_id ord \<or>
                 (\<exists>m. umkms r (o_umkm_id ord) = Some m \<and> u_owner_id m = user_id)"
      and lines: "cancel_order_lines now (o_items ord) (products r) = (None, ps)"
  shows "cancel_order now r order_id user_id reason =
           (Inr (snd (cancel now ord reason)),
            r\<lparr>products := ps, orders := save_order (orders r) (snd (cancel now ord reason))\<rparr>) \<and>
         o_status (snd (cancel now ord reason)) = Cancelled"
  using assms
  by (auto simp: cancel_order_def cancel_def Let_def split: option.splits)

lemma stock_round_trip:
  "map_option (map_option (\<lambda>s. s + (n::int))) (map_option (map_option (\<lambda>s. s - n)) x) = x"
  by (simp add: option.map_comp comp_def option.map_ident)

subsection \<open>Creation succeeds on a well-stocked request\<close>

lemma whole_positive_passes: "whole_positive a \<Longrightarrow> \<not> fle a (Fin 0)"
  by (cases a) (simp_all add: whole_positive_def)

lemma create_order_lines_whole:
  assumes "products_keyed_by_id ps"
      and "distinct (map fst lines)"
      and "\<forall>l \<in> set lines. \<exists>p. ps (fst l) = Some p \<and> p_umkm_id p = umkm_id \<and>
              can_be_ordered p (snd l) \<and> 0 < snd l \<and> whole_positive (p_price p)"
  shows "\<exists>new ps'. create_order_lines now umkm_id lines acc ps = (Inr (acc @ new), ps') \<and>
           (\<forall>i \<in> set new. 0 < oi_quantity i \<and> whole_positive (oi_unit_price i)) \<and>
           length new = length lines \<and>
           (\<Sum>i\<leftarrow>new. exact_subtotal i) =
             (\<Sum>l\<leftarrow>lines. of_int (snd l) *
                 (case ps (fst l) of Some p \<Rightarrow> float_value (p_price p) | None \<Rightarrow> 0))"
  using assms
proof (induction lines arbitrary: acc ps)
  case Nil
  then show ?case by simp
next
  case (Cons l lines)
  obtain pid q where l: "l = (pid, q)" by (cases l)
  from Cons.prems(3) obtain p where
    p: "ps pid = Some p" "p_umkm_id p = umkm_id" "can_be_ordered p q" "0 < q"
       "whole_positive (p_price p)"
    by (auto simp: l)
  from p(1) Cons.prems(1) have pid: "p_id p = pid"
    by (simp add: products_keyed_by_id_def)
  obtain p' where red: "reduce_stock now p q = (None, p')" and p'id: "p_id p' = pid"
    using p(3) pid by (cases "p_stock_quantity p") (auto simp: reduce_stock_def)
  let ?item = "\<lparr>oi_product_id = pid, oi_product_name = p_name p, oi_quantity = q,
                oi_unit_price = p_price p\<rparr>"
  have step: "create_order_lines now umkm_id (l # lines) acc ps =
              create_order_lines now umkm_id lines (acc @ [?item]) (ps(pid \<mapsto> p'))"
    using p red pid p'id whole_positive_passes [OF p(5)]
    by (simp add: l OrderItem_init_def save_product_def)
  have keyed1: "products_keyed_by_id (ps(pid \<mapsto> p'))"
    using Cons.prems(1) p'id by (rule keyed_upd)
  have dist: "distinct (map fst lines)" and fresh: "pid \<notin> fst ` set lines"
    using Cons.prems(2) by (simp_all add: l)
  have same: "(ps(pid \<mapsto> p')) (fst l') = ps (fst l')" if "l' \<in> set lines" for l'
    using that fresh by auto
  have others: "\<forall>l' \<in> set lines. \<exists>p. (ps(pid \<mapsto> p')) (fst l') = Some p \<and> p_umkm_id p = umkm_id \<and>
              can_be_ordered p (snd l') \<and> 0 < snd l' \<and> whole_positive (p_price p)"
    using Cons.prems(3) same by (simp del: fun_upd_apply)
  from Cons.IH [OF keyed1 dist others, of "acc @ [?item]"] obtain new ps' where
    run: "create_order_lines now umkm_id lines (acc @ [?item]) (ps(pid \<mapsto> p')) =
            (Inr ((acc @ [?item]) @ new), ps')"
    and good: "\<forall>i \<in> set new. 0 < oi_quantity i \<and> whole_positive (oi_unit_price i)"
    and len: "length new = length lines"
    and total: "(\<Sum>i\<leftarrow>new. exact_subtotal i) =
             (\<Sum>l\<leftarrow>lines. of_int (snd l) *
                 (case (ps(pid \<mapsto> p')) (fst l) of Some p \<Rightarrow> float_value (p_price p) | None \<Rightarrow> 0))"
    by blast
  have "map (\<lambda>l. of_int (snd l) *
                 (case (ps(pid \<mapsto> p')) (fst l) of Some p \<Rightarrow> float_value (p_price p) | None \<Rightarrow> 0)) lines =
        map (\<lambda>l. real_of_int (snd l) *
                 (case ps (fst l) of Some p \<Rightarrow> float_value (p_price p) | None \<Rightarrow> 0)) lines"
    by (rule map_cong [OF refl]) (simp only: same)
  with total have total': "(\<Sum>i\<leftarrow>new. exact_subtotal i) =
             (\<Sum>l\<leftarrow>lines. of_int (snd l) *
                 (case ps (fst l) of Some p \<Rightarrow> float_value (p_price p) | None \<Rightarrow> 0))"
    by (simp only:)
  have a: "create_order_lines now umkm_id (l # lines) acc ps = (Inr (acc @ (?item # new)), ps')"
    using run by (simp add: step)
  have b: "\<forall>i \<in> set (?item # new). 0 < oi_quantity i \<and> whole_positive (oi_unit_price i)"
    using good p(4,5) by simp
  have c: "length (?item # new) = length (l # lines)"
    using len by simp
  have d: "(\<Sum>i\<leftarrow>?item # new. exact_subtotal i) =
             (\<Sum>l\<leftarrow>l # lines. of_int (snd l) *
                 (case ps (fst l) of Some p \<Rightarrow> float_value (p_price p) | None \<Rightarrow> 0))"
    using total' p(1) by (simp add: l exact_subtotal_def)
  from a b c d show ?case by blast
qed

lemma exact_subtotals_pos:
  assumes "items \<noteq> []" and "\<forall>i \<in> set items. 0 < oi_quantity i \<and> whole_positive (oi_unit_price i)"
  shows "0 < (\<Sum>i\<leftarrow>items. exact_subtotal i)"
proof (cases items)
  case Nil
  with assms(1) show ?thesis by simp
next
  case (Cons item rest)
  with assms(2) have q: "0 < oi_quantity item" and w: "whole_positive (oi_unit_price item)"
    and r: "\<forall>i \<in> set rest. 0 < oi_quantity i \<and> whole_positive (oi_unit_price i)"
    by simp_all
  from q w obtain c where "0 < c" "exact_subtotal item = of_int (oi_quantity item * c)"
    by (rule exact_subtotal_whole)
  with q have "0 < exact_subtotal item" by simp
  with exact_subtotals_nonneg [OF r] show ?thesis by (simp add: Cons)
qed

text \<open>
  On an Active merchant, a request of at least one line, over distinct products of that
  merchant that can each be ordered in the quantity asked, at whole-number prices
  with an exact total of at most \<open>2 ^ 53\<close>, with no pickup time or one in the future,
  yields an order.
\<close>

lemma create_order_succeeds:
  assumes "products_keyed_by_id (products r)"
      and "umkms r umkm_id = Some m" and "u_status m = Active"
      and "lines \<noteq> []" and "distinct (map fst lines)"
      and "\<forall>l \<in> set lines. \<exists>p. products r (fst l) = Some p \<and> p_umkm_id p = umkm_id \<and>
              can_be_ordered p (snd l) \<and> 0 < snd l \<and> whole_positive (p_price p)"
      and "(\<Sum>l\<leftarrow>lines. of_int (snd l) *
              (case products r (fst l) of Some p \<Rightarrow> float_value (p_price p) | None \<Rightarrow> 0)) \<le> 2 ^ 53"
      and "case pickup_time of None \<Rightarrow> True | Some t \<Rightarrow> now < t"
  shows "\<exists>ord r'. create_order now new_id r buyer_id umkm_id lines pickup_time notes = (Inr ord, r')"
proof -
  from create_order_lines_whole [OF assms(1,5,6), of now "[]"] obtain items ps where
    run: "create_order_lines now umkm_id lines [] (products r) = (Inr items, ps)"
    and good: "\<forall>i \<in> set items. 0 < oi_quantity i \<and> whole_positive (oi_unit_price i)"
    and len: "length items = length lines"
    and total: "(\<Sum>i\<leftarrow>items. exact_subtotal i) =
             (\<Sum>l\<leftarrow>lines. of_int (snd l) *
                 (case products r (fst l) of Some p \<Rightarrow> float_value (p_price p) | None \<Rightarrow> 0))"
    by auto
  from len assms(4) have ne: "items \<noteq> []" by auto
  have le: "(\<Sum>i\<leftarrow>items. exact_subtotal i) \<le> 2 ^ 53"
    using assms(7) by (simp only: total)
  have tot: "calculate_total items = Inr (Fin (\<Sum>i\<leftarrow>items. exact_subtotal i))"
    using sum_subtotals_exact [OF good, of 0] le by (simp add: calculate_total_def)
  have pos: "\<not> fle (Fin (\<Sum>i\<leftarrow>items. exact_subtotal i)) (Fin 0)"
    using exact_subtotals_pos [OF ne good] by simp
  have "\<exists>ord. Order_init now new_id buyer_id umkm_id items Placed pickup_time notes None = Inr ord"
    using ne pos assms(8) by (cases pickup_time) (simp_all add: Order_init_def tot)
  then show ?thesis
    using assms(2,3) run by (auto simp: create_order_def can_accept_orders_def)
qed

subsection \<open>Reserve, then restore\<close>

text \<open>
  Claim C1. For every order that \<^verbatim>\<open>create_order\<close> creates, the merchant is Active
  and the stock of every product is reduced by exactly the quantity the request asks
  of it (the sum over the request's lines for that product; unlimited stock stays
  unlimited). A following \<^verbatim>\<open>cancel_order\<close> of that order by the buyer or by the
  merchant's owner succeeds, and leaves the stock of every product at its value
  before the order: reserving and then restoring is the identity on the stock.
\<close>

theorem create_then_cancel_restores_stock:
  assumes keyed: "products_keyed_by_id (products r)"
      and created: "create_order now new_id r buyer_id umkm_id lines pickup_time notes = (Inr ord, r')"
      and auth: "user_id = buyer_id \<or> (\<exists>m. umkms r umkm_id = Some m \<and> u_owner_id m = user_id)"
  shows "(\<exists>m. umkms r umkm_id = Some m \<and> u_status m = Active) \<and>
         (\<forall>k. stock_of (products r') k =
               map_option (map_option (\<lambda>s. s - requested lines k)) (stock_of (products r) k)) \<and>
         (\<exists>ord'. fst (cancel_order now' r' (o_id ord) user_id reason) = Inr ord' \<and>
                 o_status ord' = Cancelled) \<and>
         (\<forall>k. stock_of (products (snd (cancel_order now' r' (o_id ord) user_id reason))) k =
               stock_of (products r) k)"
proof -
  from created obtain m items ps where
    m: "umkms r umkm_id = Some m" and acc: "can_accept_orders m"
    and run: "create_order_lines now umkm_id lines [] (products r) = (Inr items, ps)"
    and init: "Order_init now new_id buyer_id umkm_id items Placed pickup_time notes None = Inr ord"
    and r': "r' = r\<lparr>products := ps, orders := save_order (orders r) ord\<rparr>"
    by (rule create_order_unfold)
  note f = Order_init_fields [OF init]
  note ok = create_order_lines_ok [OF keyed run]
  from ok have keyed2: "products_keyed_by_id ps" by blast
  from ok have its: "map line_of items = lines" by auto
  from ok have "\<forall>l \<in> set lines. 0 < snd l" by blast
  with its have pos: "\<forall>i \<in> set (o_items ord). 0 < oi_quantity i"
    using f by (auto simp: line_of_def)
  from ok have down: "stock_of ps k =
      map_option (map_option (\<lambda>s. s - requested lines k)) (stock_of (products r) k)" for k
    by blast
  from cancel_order_lines_ok [OF keyed2 pos, of "now'"] obtain ps2 where
    undo: "cancel_order_lines now' (o_items ord) ps = (None, ps2)"
    and up: "\<forall>k. stock_of ps2 k =
      map_option (map_option (\<lambda>s. s + requested (map line_of (o_items ord)) k)) (stock_of ps k)"
    by blast
  have stored: "orders r' (o_id ord) = Some ord"
    by (simp add: r' save_order_def)
  have can: "can_be_cancelled ord"
    using f by (simp add: can_be_cancelled_def)
  have auth2: "user_id = o_buyer_id ord \<or>
               (\<exists>m. umkms r' (o_umkm_id ord) = Some m \<and> u_owner_id m = user_id)"
    using auth f by (simp add: r')
  have undo2: "cancel_order_lines now' (o_items ord) (products r') = (None, ps2)"
    using undo by (simp add: r')
  note c = cancel_order_runs [OF stored can auth2 undo2, of reason]
  have s1: "\<exists>m. umkms r umkm_id = Some m \<and> u_status m = Active"
    using m acc by (simp add: can_accept_orders_def)
  have s2: "\<forall>k. stock_of (products r') k =
               map_option (map_option (\<lambda>s. s - requested lines k)) (stock_of (products r) k)"
    using down by (simp add: r')
  have s3: "\<exists>ord'. fst (cancel_order now' r' (o_id ord) user_id reason) = Inr ord' \<and>
                 o_status ord' = Cancelled"
    using c by simp
  have s4: "stock_of (products (snd (cancel_order now' r' (o_id ord) user_id reason))) k =
               stock_of (products r) k" for k
  proof -
    have "stock_of (products (snd (cancel_order now' r' (o_id ord) user_id reason))) k = stock_of ps2 k"
      using c by simp
    also have "\<dots> = map_option (map_option (\<lambda>s. s + requested lines k)) (stock_of ps k)"
      using up its f by simp
    also have "\<dots> = stock_of (products r) k"
      by (simp only: down stock_round_trip)
    finally show ?thesis .
  qed
  from s1 s2 s3 s4 show ?thesis by blast
qed

theorem create_then_cancel_restores_stock_witness:
  "products_keyed_by_id (products ex_repos) \<and>
   fst (create_order 7 500 ex_repos 20 1 [(100, 2), (101, 3)] None None)
     = Inr ((ex_order Placed)\<lparr>o_items := [ex_item, ex_item_teh], o_total_amount := Fin 45000,
                               o_created_at := 7, o_updated_at := 7\<rparr>) \<and>
   stock_of (products ex_repos) 100 = Some (Some 50) \<and>
   stock_of (products ex_repos) 101 = Some (Some 100) \<and>
   stock_of (products (snd (create_order 7 500 ex_repos 20 1 [(100, 2), (101, 3)] None None))) 100
     = Some (Some 48) \<and>
   stock_of (products (snd (create_order 7 500 ex_repos 20 1 [(100, 2), (101, 3)] None None))) 101
     = Some (Some 97) \<and>
   stock_of (products (snd (cancel_order 9
       (snd (create_order 7 500 ex_repos 20 1 [(100, 2), (101, 3)] None None)) 500 20 None))) 100
     = Some (Some 50) \<and>
   stock_of (products (snd (cancel_order 9
       (snd (create_order 7 500 ex_repos 20 1 [(100, 2), (101, 3)] None None)) 500 20 None))) 101
     = Some (Some 100)"
proof -
  have k: "products_keyed_by_id (products ex_repos)"
    by (simp add: products_keyed_by_id_def ex_repos_def ex_nasi_def ex_teh_def)
  have f: "fst (create_order 7 500 ex_repos 20 1 [(100, 2), (101, 3)] None None)
     = Inr ((ex_order Placed)\<lparr>o_items := [ex_item, ex_item_teh], o_total_amount := Fin 45000,
                               o_created_at := 7, o_updated_at := 7\<rparr>)"
    by (simp add: create_order_def ex_repos_def ex_umkm_def can_accept_orders_def ex_nasi_def
          ex_teh_def can_be_ordered_def OrderItem_init_def reduce_stock_def save_product_def
          Order_init_def calculate_total_def subtotal_def ex_order_def ex_item_def ex_item_teh_def
          float_eval)
  then have c: "create_order 7 500 ex_repos 20 1 [(100, 2), (101, 3)] None None
     = (Inr ((ex_order Placed)\<lparr>o_items := [ex_item, ex_item_teh], o_total_amount := Fin 45000,
                               o_created_at := 7, o_updated_at := 7\<rparr>),
        snd (create_order 7 500 ex_repos 20 1 [(100, 2), (101, 3)] None None))"
    by (simp add: prod_eq_iff)
  have a: "(20::nat) = 20 \<or> (\<exists>m. umkms ex_repos 1 = Some m \<and> u_owner_id m = 20)"
    by simp
  have s: "stock_of (products ex_repos) 100 = Some (Some 50)"
          "stock_of (products ex_repos) 101 = Some (Some 100)"
    by (simp_all add: stock_of_def ex_repos_def ex_nasi_def ex_teh_def)
  have q: "requested [(100, 2), (101, 3)] 100 = 2" "requested [(100, 2), (101, 3)] 101 = 3"
    by (simp_all add: requested_def)
  have i: "o_id ((ex_order Placed)\<lparr>o_items := [ex_item, ex_item_teh], o_total_amount := Fin 45000,
                               o_created_at := 7, o_updated_at := 7\<rparr>) = 500"
    by (simp add: ex_order_def)
  show ?thesis
    using k f s q create_then_cancel_restores_stock [OF k c a, of 9 None]
    by (simp add: i)
qed

text \<open>
  Claim C9. \<^verbatim>\<open>create_order\<close> is not atomic across lines. Whenever the first line of
  a request can be reserved from finite stock and the second line, for another
  product, fails (product missing, product of another merchant, or not orderable in
  that quantity), \<^verbatim>\<open>create_order\<close> raises the second line's error, stores no order,
  and the first product's stock stays decremented by the first line's quantity.
\<close>

theorem create_order_keeps_earlier_reservation:
  assumes m: "umkms r umkm_id = Some m" "can_accept_orders m"
      and p1: "products r pid1 = Some p1" "p_id p1 = pid1" "p_umkm_id p1 = umkm_id"
              "p_is_available p1" "\<not> fle (p_price p1) (Fin 0)"
      and s1: "p_stock_quantity p1 = Some s1" "0 < q1" "q1 \<le> s1"
      and other: "pid2 \<noteq> pid1"
      and fails: "case products r pid2 of
                    None \<Rightarrow> True
                  | Some p2 \<Rightarrow> p_umkm_id p2 \<noteq> umkm_id \<or> \<not> can_be_ordered p2 q2"
  shows "fst (create_order now new_id r buyer_id umkm_id ((pid1, q1) # (pid2, q2) # rest) pickup_time notes)
           = Inl (case products r pid2 of
                    None \<Rightarrow> ProductNotFound pid2
                  | Some p2 \<Rightarrow> if p_umkm_id p2 \<noteq> umkm_id then ProductMerchantMismatch pid2
                               else ProductUnavailable) \<and>
         stock_of (products (snd (create_order now new_id r buyer_id umkm_id
                      ((pid1, q1) # (pid2, q2) # rest) pickup_time notes))) pid1
           = Some (Some (s1 - q1)) \<and>
         stock_of (products r) pid1 = Some (Some s1) \<and>
         orders (snd (create_order now new_id r buyer_id umkm_id
                      ((pid1, q1) # (pid2, q2) # rest) pickup_time notes)) = orders r"
proof -
  let ?p1 = "p1\<lparr>p_stock_quantity := Some (s1 - q1), p_updated_at := now\<rparr>"
  let ?e = "case products r pid2 of
              None \<Rightarrow> ProductNotFound pid2
            | Some p2 \<Rightarrow> if p_umkm_id p2 \<noteq> umkm_id then ProductMerchantMismatch pid2
                         else ProductUnavailable"
  have second: "create_order_lines now umkm_id ((pid2, q2) # rest) acc ((products r)(pid1 \<mapsto> ?p1))
                  = (Inl ?e, (products r)(pid1 \<mapsto> ?p1))" for acc
    using other fails by (cases "products r pid2") auto
  have first: "create_order_lines now umkm_id ((pid1, q1) # (pid2, q2) # rest) [] (products r)
                 = (Inl ?e, (products r)(pid1 \<mapsto> ?p1))"
    using p1 s1 second
    by (simp add: can_be_ordered_def OrderItem_init_def reduce_stock_def save_product_def
          del: create_order_lines.simps(2)
          add: create_order_lines.simps(2) [of now umkm_id pid1 q1])
  have run: "create_order now new_id r buyer_id umkm_id ((pid1, q1) # (pid2, q2) # rest) pickup_time notes
               = (Inl ?e, r\<lparr>products := (products r)(pid1 \<mapsto> ?p1)\<rparr>)"
    using m first by (simp add: create_order_def)
  show ?thesis
    using p1(1) s1(1) by (simp add: run stock_of_def)
qed

theorem create_order_keeps_earlier_reservation_witness:
  "fst (create_order 7 500 ex_repos 20 1 [(100, 2), (999, 1)] None None) = Inl (ProductNotFound 999) \<and>
   stock_of (products ex_repos) 100 = Some (Some 50) \<and>
   stock_of (products (snd (create_order 7 500 ex_repos 20 1 [(100, 2), (999, 1)] None None))) 100
     = Some (Some 48) \<and>
   fst (create_order 7 500 ex_repos 20 1 [(100, 2), (101, 101)] None None) = Inl ProductUnavailable \<and>
   stock_of (products (snd (create_order 7 500 ex_repos 20 1 [(100, 2), (101, 101)] None None))) 100
     = Some (Some 48) \<and>
   orders (snd (create_order 7 500 ex_repos 20 1 [(100, 2), (101, 101)] None None)) = Map.empty"
proof -
  have a: "umkms ex_repos 1 = Some ex_umkm" "can_accept_orders ex_umkm"
    by (simp_all add: ex_repos_def ex_umkm_def can_accept_orders_def)
  have b: "products ex_repos 100 = Some ex_nasi" "p_id ex_nasi = 100" "p_umkm_id ex_nasi = 1"
          "p_is_available ex_nasi" "\<not> fle (p_price ex_nasi) (Fin 0)"
    by (simp_all add: ex_repos_def ex_nasi_def)
  have c: "p_stock_quantity ex_nasi = Some 50" "(0::int) < 2" "(2::int) \<le> 50"
    by (simp_all add: ex_nasi_def)
  have d: "(999::nat) \<noteq> 100" "(101::nat) \<noteq> 100"
    by simp_all
  have e: "case products ex_repos 999 of None \<Rightarrow> True
           | Some p2 \<Rightarrow> p_umkm_id p2 \<noteq> 1 \<or> \<not> can_be_ordered p2 1"
    by (simp add: ex_repos_def)
  have f: "case products ex_repos 101 of None \<Rightarrow> True
           | Some p2 \<Rightarrow> p_umkm_id p2 \<noteq> 1 \<or> \<not> can_be_ordered p2 101"
    by (simp add: ex_repos_def ex_teh_def can_be_ordered_def)
  have g: "products ex_repos 999 = None" "products ex_repos 101 = Some ex_teh" "p_umkm_id ex_teh = 1"
          "orders ex_repos = Map.empty"
    by (simp_all add: ex_repos_def ex_teh_def)
  show ?thesis
    using create_order_keeps_earlier_reservation [OF a b c d(1) e, of 7 500 20 "[]" None None]
          create_order_keeps_earlier_reservation [OF a b c d(2) f, of 7 500 20 "[]" None None]
    by (simp add: g)
qed

lemma cancel_order_lines_dom:
  assumes "products_keyed_by_id ps"
  shows "products_keyed_by_id (snd (cancel_order_lines now items ps)) \<and>
         dom (snd (cancel_order_lines now items ps)) = dom ps"
  using assms
proof (induction items arbitrary: ps)
  case Nil
  then show ?case by simp
next
  case (Cons item items)
  show ?case
  proof (cases "ps (oi_product_id item)")
    case None
    then show ?thesis using Cons.IH [OF Cons.prems] by simp
  next
    case (Some p)
    with Cons.prems have pid: "p_id p = oi_product_id item"
      by (simp add: products_keyed_by_id_def)
    show ?thesis
    proof (cases "oi_quantity item \<le> 0")
      case True
      then show ?thesis using Some Cons.prems by (simp add: increase_stock_def)
    next
      case False
      then obtain p' where
        inc: "increase_stock now p (oi_quantity item) = (None, p')" and p'id: "p_id p' = p_id p"
        using increase_stock_ok [of "oi_quantity item" now p] by auto
      have keyed1: "products_keyed_by_id (ps(oi_product_id item \<mapsto> p'))"
        using Cons.prems p'id pid by (simp add: keyed_upd)
      have d: "dom (ps(oi_product_id item \<mapsto> p')) = dom ps"
        using Some by auto
      have step: "cancel_order_lines now (item # items) ps =
                  cancel_order_lines now items (ps(oi_product_id item \<mapsto> p'))"
        using Some inc p'id pid by (simp add: save_product_def)
      show ?thesis
        by (simp only: step Cons.IH [OF keyed1] d)
    qed
  qed
qed

lemma cancel_order_lines_filter:
  assumes "products_keyed_by_id ps" and "dom ps = D"
  shows "cancel_order_lines now items ps =
         cancel_order_lines now (filter (\<lambda>i. oi_product_id i \<in> D) items) ps"
  using assms
proof (induction items arbitrary: ps)
  case Nil
  then show ?case by simp
next
  case (Cons item items)
  show ?case
  proof (cases "ps (oi_product_id item)")
    case None
    then have "oi_product_id item \<notin> D" using Cons.prems(2) by auto
    then show ?thesis using None Cons.IH [OF Cons.prems] by simp
  next
    case (Some p)
    then have mem: "oi_product_id item \<in> D" using Cons.prems(2) by auto
    from Some Cons.prems(1) have pid: "p_id p = oi_product_id item"
      by (simp add: products_keyed_by_id_def)
    show ?thesis
    proof (cases "oi_quantity item \<le> 0")
      case True
      then show ?thesis using Some mem by (simp add: increase_stock_def)
    next
      case False
      then obtain p' where
        inc: "increase_stock now p (oi_quantity item) = (None, p')" and p'id: "p_id p' = p_id p"
        using increase_stock_ok [of "oi_quantity item" now p] by auto
      have keyed1: "products_keyed_by_id (ps(oi_product_id item \<mapsto> p'))"
        using Cons.prems(1) p'id pid by (simp add: keyed_upd)
      have d: "dom (ps(oi_product_id item \<mapsto> p')) = D"
        using Some Cons.prems(2) by auto
      have step: "cancel_order_lines now (item # items) ps =
                  cancel_order_lines now items (ps(oi_product_id item \<mapsto> p'))"
        using Some inc p'id pid by (simp add: save_product_def)
      have step': "cancel_order_lines now (filter (\<lambda>i. oi_product_id i \<in> D) (item # items)) ps =
                   cancel_order_lines now (filter (\<lambda>i. oi_product_id i \<in> D) items)
                     (ps(oi_product_id item \<mapsto> p'))"
        using Some inc p'id pid mem by (simp add: save_product_def)
      show ?thesis
        by (simp only: step step' Cons.IH [OF keyed1 d])
    qed
  qed
qed

text \<open>
  Claim C10. In \<^verbatim>\<open>cancel_order\<close>, a line whose product is no longer in the product
  store is passed over: for every stored order that can be cancelled, with an
  authorized caller, the cancellation completes without error, the product store
  it leaves is the one the restoration loop gives on only those lines whose product
  is present, and a product id that was absent is still absent. So the restore of a
  line happens only when its product still exists.
\<close>

theorem cancel_order_skips_missing_products:
  assumes keyed: "products_keyed_by_id (products r)"
      and ord: "orders r order_id = Some ord"
      and can: "can_be_cancelled ord"
      and auth: "user_id = o_buyer_id ord \<or>
                 (\<exists>m. umkms r (o_umkm_id ord) = Some m \<and> u_owner_id m = user_id)"
      and pos: "\<forall>i \<in> set (o_items ord). 0 < oi_quantity i"
  shows "fst (cancel_order now r order_id user_id reason) = Inr (snd (cancel now ord reason)) \<and>
         o_status (snd (cancel now ord reason)) = Cancelled \<and>
         products (snd (cancel_order now r order_id user_id reason)) =
           snd (cancel_order_lines now
                  (filter (\<lambda>i. products r (oi_product_id i) \<noteq> None) (o_items ord)) (products r)) \<and>
         (\<forall>k. products r k = None \<longrightarrow>
               products (snd (cancel_order now r order_id user_id reason)) k = None)"
proof -
  from cancel_order_lines_ok [OF keyed pos, of now] obtain ps where
    run: "cancel_order_lines now (o_items ord) (products r) = (None, ps)"
    by blast
  note c = cancel_order_runs [OF ord can auth run, of reason]
  have same: "(\<lambda>i. oi_product_id i \<in> dom (products r)) = (\<lambda>i. products r (oi_product_id i) \<noteq> None)"
    by (auto simp: dom_def)
  have "cancel_order_lines now (o_items ord) (products r) =
        cancel_order_lines now
          (filter (\<lambda>i. products r (oi_product_id i) \<noteq> None) (o_items ord)) (products r)"
    using cancel_order_lines_filter [OF keyed refl, of now "o_items ord"]
    by (simp only: same)
  with run have flt: "ps = snd (cancel_order_lines now
                  (filter (\<lambda>i. products r (oi_product_id i) \<noteq> None) (o_items ord)) (products r))"
    by (metis snd_conv)
  have "dom ps = dom (products r)"
    using cancel_order_lines_dom [OF keyed, of now "o_items ord"] run by simp
  then have absent: "\<forall>k. products r k = None \<longrightarrow> ps k = None"
    by (metis domIff)
  from c flt absent show ?thesis by simp
qed

theorem cancel_order_skips_missing_products_witness:
  "products ex_repos 999 = None \<and>
   fst (cancel_order 9
          (ex_repos\<lparr>orders := [500 \<mapsto> (ex_order Placed)\<lparr>o_items := [ex_item\<lparr>oi_product_id := 999\<rparr>]\<rparr>]\<rparr>)
          500 20 None)
     = Inr ((ex_order Cancelled)\<lparr>o_items := [ex_item\<lparr>oi_product_id := 999\<rparr>],
                                  o_cancelled_at := Some 9, o_updated_at := 9\<rparr>) \<and>
   products (snd (cancel_order 9
          (ex_repos\<lparr>orders := [500 \<mapsto> (ex_order Placed)\<lparr>o_items := [ex_item\<lparr>oi_product_id := 999\<rparr>]\<rparr>]\<rparr>)
          500 20 None))
     = products ex_repos"
proof -
  let ?ord = "(ex_order Placed)\<lparr>o_items := [ex_item\<lparr>oi_product_id := 999\<rparr>]\<rparr>"
  let ?r = "ex_repos\<lparr>orders := [500 \<mapsto> ?ord]\<rparr>"
  have k: "products_keyed_by_id (products ?r)"
    by (simp add: products_keyed_by_id_def ex_repos_def ex_nasi_def ex_teh_def)
  have a: "orders ?r 500 = Some ?ord" by simp
  have b: "can_be_cancelled ?ord"
    by (simp add: can_be_cancelled_def ex_order_def)
  have c: "20 = o_buyer_id ?ord \<or> (\<exists>m. umkms ?r (o_umkm_id ?ord) = Some m \<and> u_owner_id m = 20)"
    by (simp add: ex_order_def)
  have d: "\<forall>i \<in> set (o_items ?ord). 0 < oi_quantity i"
    by (simp add: ex_item_def)
  have e: "products ex_repos 999 = None"
    by (simp add: ex_repos_def)
  show ?thesis
    using e cancel_order_skips_missing_products [OF k a b c d, of 9 None]
    by (simp add: cancel_def can_be_cancelled_def ex_order_def)
qed

end
